theory Spec2Isabelle
  imports Complex_Main "HOL-Library.Word" "HOL-Library.Stream" "HOL-Library.Multiset"
begin

unbundle bit_operations_syntax

section \<open>Python values shared by the three modules\<close>

text \<open>
  A Python \<open>str\<close> is a sequence of Unicode code points, and \<open>len\<close> counts code points.
  A plaintext password is therefore a list of code points (natural numbers; Python only
  builds code points below \<open>0x110000\<close>). Text that the program itself produces or
  compares against ASCII constants (character pools, hex digests, messages, the body of
  the breach service's answer) is a \<open>string\<close>, a list of 8-bit characters read as the
  code points 0..255. Python floats are read as real numbers, with the one non-finite
  value the code constructs, \<open>float("inf")\<close>, as a separate constructor.
\<close>

type_synonym codepoint = nat
type_synonym pystr = "codepoint list"

definition ord :: "char \<Rightarrow> codepoint" where
  "ord c = of_char c"

definition py_str :: "string \<Rightarrow> pystr" where
  "py_str s = map ord s"

datatype pyfloat = Finite real | Infinity

fun flt_less :: "pyfloat \<Rightarrow> real \<Rightarrow> bool" where
  "flt_less (Finite x) y = (x < y)"
| "flt_less Infinity y = False"

fun flt_div :: "pyfloat \<Rightarrow> real \<Rightarrow> pyfloat" where
  "flt_div (Finite x) y = Finite (x / y)"
| "flt_div Infinity y = Infinity"

text \<open>\<open>str(n)\<close> for a non-negative integer: its decimal digits.\<close>

definition digit_char :: "nat \<Rightarrow> char" where
  "digit_char d = ''0123456789'' ! d"

fun str_nat :: "nat \<Rightarrow> string" where
  "str_nat n = (if n < 10 then [digit_char n] else str_nat (n div 10) @ [digit_char (n mod 10)])"

declare str_nat.simps [simp del]

definition str_int :: "int \<Rightarrow> string" where
  "str_int i = (if i < 0 then CHR ''-'' # str_nat (nat (- i)) else str_nat (nat i))"

text \<open>
  Rounding to the nearest integer, ties to the even neighbour: the rule of Python's
  \<open>round\<close> and of the \<open>f\<close> format specifier.
\<close>

definition round_half_even :: "real \<Rightarrow> int" where
  "round_half_even x =
     (let f = \<lfloor>x\<rfloor>; d = x - of_int f
      in if d < 1 / 2 then f else if 1 / 2 < d then f + 1 else if even f then f else f + 1)"

text \<open>\<open>round(x, ndigits)\<close>.\<close>

definition py_round :: "real \<Rightarrow> nat \<Rightarrow> real" where
  "py_round x ndigits = of_int (round_half_even (x * 10 ^ ndigits)) / 10 ^ ndigits"

text \<open>\<open>f"{x:.Nf}"\<close>: fixed-point text with \<open>N\<close> digits after the point.\<close>

definition format_f :: "nat \<Rightarrow> pyfloat \<Rightarrow> string" where
  "format_f prec v =
     (case v of
        Infinity \<Rightarrow> ''inf''
      | Finite x \<Rightarrow>
          (let n = nat (round_half_even (\<bar>x\<bar> * 10 ^ prec));
               whole = str_nat (n div 10 ^ prec);
               frac = str_nat (n mod 10 ^ prec);
               padded = replicate (prec - length frac) CHR ''0'' @ frac
           in (if x < 0 then ''-'' else '''') @ whole @ (if prec = 0 then '''' else ''.'' @ padded)))"

text \<open>
  Exceptions are values. \<open>ValueError\<close> carries the message the program raises it with;
  \<open>IntLiteralError\<close> is the \<open>ValueError\<close> that \<open>int()\<close> raises on a malformed
  literal, with the literal; \<open>IntTooLongError\<close> is the \<open>ValueError\<close> that \<open>int()\<close>
  raises on a literal with more digits than the interpreter converts, with the number
  of digits; \<open>UnicodeEncodeError\<close> carries the start and end position of the characters
  that could not be encoded; \<open>HTTPStatusError\<close> carries the status code of the response;
  \<open>TransportError\<close> stands for every other failure of the HTTP client, with a tag.
  \<open>CancelledError\<close> (of asyncio), \<open>KeyboardInterrupt\<close> and \<open>SystemExit\<close> derive from
  \<open>BaseException\<close> but not from \<open>Exception\<close>: a clause \<open>except Exception\<close> does not
  catch them. \<open>is_exception e\<close> is \<open>isinstance(e, Exception)\<close>.
\<close>

datatype exn =
    ValueError string
  | IntLiteralError string
  | IntTooLongError nat
  | TypeError
  | IndexError
  | UnicodeEncodeError nat nat
  | TimeoutException
  | HTTPStatusError int
  | TransportError string
  | CancelledError
  | KeyboardInterrupt
  | SystemExit

fun is_exception :: "exn \<Rightarrow> bool" where
  "is_exception CancelledError = False"
| "is_exception KeyboardInterrupt = False"
| "is_exception SystemExit = False"
| "is_exception e = True"

section \<open>entropy.py: password strength analysis\<close>

subsection \<open>The regular expressions\<close>

text \<open>
  Every pattern of the module is one bracket expression, plain or negated, over
  character ranges. \<open>re.search\<close> with such a pattern succeeds exactly when some
  character of the subject is matched by the class.
\<close>

datatype char_class = Class "(char \<times> char) list" | NegClass "(char \<times> char) list"

definition in_ranges :: "(char \<times> char) list \<Rightarrow> codepoint \<Rightarrow> bool" where
  "in_ranges rs c = list_ex (\<lambda>(lo, hi). ord lo \<le> c \<and> c \<le> ord hi) rs"

fun class_matches :: "char_class \<Rightarrow> codepoint \<Rightarrow> bool" where
  "class_matches (Class rs) c = in_ranges rs c"
| "class_matches (NegClass rs) c = (\<not> in_ranges rs c)"

definition re_search :: "char_class \<Rightarrow> pystr \<Rightarrow> bool" where
  "re_search cls s = list_ex (class_matches cls) s"

definition re_lower :: char_class where
  "re_lower = Class [(CHR ''a'', CHR ''z'')]"

definition re_upper :: char_class where
  "re_upper = Class [(CHR ''A'', CHR ''Z'')]"

definition re_digit :: char_class where
  "re_digit = Class [(CHR ''0'', CHR ''9'')]"

definition re_symbol :: char_class where
  "re_symbol = NegClass [(CHR ''a'', CHR ''z''), (CHR ''A'', CHR ''Z''), (CHR ''0'', CHR ''9'')]"

subsection \<open>The analysis\<close>

definition GUESSES_PER_SECOND :: int where
  "GUESSES_PER_SECOND = 10000000000"

definition get_charset_size :: "pystr \<Rightarrow> nat" where
  "get_charset_size password =
     (let charset = 0;
          charset = (if re_search re_lower password then charset + 26 else charset);
          charset = (if re_search re_upper password then charset + 26 else charset);
          charset = (if re_search re_digit password then charset + 10 else charset);
          charset = (if re_search re_symbol password then charset + 32 else charset)
      in charset)"

definition format_crack_time :: "pyfloat \<Rightarrow> string" where
  "format_crack_time seconds =
     (if flt_less seconds (1 / 1000) then ''Instantly''
      else if flt_less seconds 1 then ''Less than a second''
      else if flt_less seconds 60 then format_f 1 seconds @ '' seconds''
      else if flt_less seconds 3600 then format_f 1 (flt_div seconds 60) @ '' minutes''
      else if flt_less seconds 86400 then format_f 1 (flt_div seconds 3600) @ '' hours''
      else if flt_less seconds 31536000 then format_f 1 (flt_div seconds 86400) @ '' days''
      else
        (let years = flt_div seconds 31536000
         in if flt_less years 100 then format_f 1 years @ '' years''
            else if flt_less years 10000 then format_f 0 (flt_div years 100) @ '' centuries''
            else ''Virtually uncrackable''))"

record strength =
  label :: string
  color :: string

definition get_strength_label :: "real \<Rightarrow> strength" where
  "get_strength_label entropy =
     (if entropy < 28 then \<lparr>label = ''Very Weak'', color = ''#ef4444''\<rparr>
      else if entropy < 36 then \<lparr>label = ''Weak'', color = ''#f97316''\<rparr>
      else if entropy < 60 then \<lparr>label = ''Moderate'', color = ''#eab308''\<rparr>
      else if entropy < 80 then \<lparr>label = ''Strong'', color = ''#22c55e''\<rparr>
      else \<lparr>label = ''Very Strong'', color = ''#06b6d4''\<rparr>)"

record policy =
  min_length :: bool
  has_uppercase :: bool
  has_lowercase :: bool
  has_number :: bool
  has_symbol :: bool

text \<open>The result dictionary; the key \<open>length\<close> is the field \<open>length_f\<close>.\<close>

record analysis =
  length_f :: nat
  charset_size :: nat
  entropy :: real
  crack_time :: string
  crack_time_seconds :: real
  strength :: strength
  policy :: policy

definition analyze_password :: "pystr \<Rightarrow> analysis" where
  "analyze_password password =
     (if password = [] then
        \<lparr>length_f = 0, charset_size = 0, entropy = 0, crack_time = ''Instantly'',
         crack_time_seconds = 0,
         strength = \<lparr>label = ''Very Weak'', color = ''#ef4444''\<rparr>,
         policy = \<lparr>min_length = False, has_uppercase = False, has_lowercase = False,
                   has_number = False, has_symbol = False\<rparr>\<rparr>
      else
        (let len = length password;
             charset_size = get_charset_size password;
             entropy = (if charset_size > 0 then real len * log 2 (real charset_size) else 0);
             crack_time_seconds =
               (if entropy > 0 then
                  (let log_combinations = entropy * log 10 2;
                       log_guesses = log 10 (real_of_int GUESSES_PER_SECOND);
                       log_seconds = log_combinations - log_guesses
                   in if log_seconds > 30 then Infinity else Finite (10 powr log_seconds))
                else Finite 0)
         in \<lparr>length_f = len,
             charset_size = charset_size,
             entropy = py_round entropy 2,
             crack_time = format_crack_time crack_time_seconds,
             crack_time_seconds = (case crack_time_seconds of Finite s \<Rightarrow> s | Infinity \<Rightarrow> - 1),
             strength = get_strength_label entropy,
             policy = \<lparr>min_length = (len \<ge> 8),
                       has_uppercase = re_search re_upper password,
                       has_lowercase = re_search re_lower password,
                       has_number = re_search re_digit password,
                       has_symbol = re_search re_symbol password\<rparr>\<rparr>))"

section \<open>generator.py: secure generation\<close>

subsection \<open>The random source\<close>

text \<open>
  Every draw of the module goes through \<open>secrets.randbelow\<close> or \<open>secrets.choice\<close>.
  The operating system's entropy is a stream of natural numbers that the draws consume
  one by one: a draw below \<open>n\<close> reduces the next number modulo \<open>n\<close>, so every sequence
  of outcomes the real source can produce is produced by some stream. A generator is a
  function from the stream to a result, or a raised exception, and the rest of the stream.
\<close>

type_synonym rng = "nat stream"

type_synonym 'a gen = "rng \<Rightarrow> (exn + 'a) \<times> rng"

definition return_gen :: "'a \<Rightarrow> 'a gen" where
  "return_gen x g = (Inr x, g)"

definition raise_gen :: "exn \<Rightarrow> 'a gen" where
  "raise_gen e g = (Inl e, g)"

definition bind_gen :: "'a gen \<Rightarrow> ('a \<Rightarrow> 'b gen) \<Rightarrow> 'b gen" where
  "bind_gen m f g = (case m g of (Inl e, g') \<Rightarrow> (Inl e, g') | (Inr x, g') \<Rightarrow> f x g')"

text \<open>\<open>secrets.randbelow(n)\<close> rejects a bound that is not positive.\<close>

definition randbelow :: "nat \<Rightarrow> nat gen" where
  "randbelow n g =
     (if n = 0 then (Inl (ValueError ''Upper bound must be positive.''), g)
      else (Inr (shd g mod n), stl g))"

text \<open>\<open>secrets.choice(seq)\<close> raises \<open>IndexError\<close> on an empty sequence.\<close>

definition choice :: "'a list \<Rightarrow> 'a gen" where
  "choice seq g =
     (if seq = [] then (Inl IndexError, g)
      else (Inr (seq ! (shd g mod length seq)), stl g))"

subsection \<open>Constants\<close>

definition AMBIGUOUS_CHARS :: string where
  "AMBIGUOUS_CHARS = ''il1Lo0O''"

definition ascii_lowercase :: string where
  "ascii_lowercase = ''abcdefghijklmnopqrstuvwxyz''"

definition ascii_uppercase :: string where
  "ascii_uppercase = ''ABCDEFGHIJKLMNOPQRSTUVWXYZ''"

definition digits :: string where
  "digits = ''0123456789''"

definition punctuation :: string where
  "punctuation =
     [CHR 0x21, CHR 0x22, CHR 0x23, CHR 0x24, CHR 0x25, CHR 0x26, CHR 0x27, CHR 0x28,
      CHR 0x29, CHR 0x2A, CHR 0x2B, CHR 0x2C, CHR 0x2D, CHR 0x2E, CHR 0x2F, CHR 0x3A,
      CHR 0x3B, CHR 0x3C, CHR 0x3D, CHR 0x3E, CHR 0x3F, CHR 0x40, CHR 0x5B, CHR 0x5C,
      CHR 0x5D, CHR 0x5E, CHR 0x5F, CHR 0x60, CHR 0x7B, CHR 0x7C, CHR 0x7D, CHR 0x7E]"


definition WORD_LIST :: "string list" where
  "WORD_LIST =
     [''apple'', ''brave'', ''cloud'', ''dance'', ''eagle'', ''flame'', ''grace'', ''heart'',
      ''ivory'', ''jewel'', ''knack'', ''lunar'', ''maple'', ''night'', ''ocean'', ''pearl'',
      ''quest'', ''river'', ''stone'', ''tiger'', ''umbra'', ''vivid'', ''whale'', ''xenon'',
      ''yacht'', ''zebra'', ''amber'', ''blaze'', ''cedar'', ''drift'', ''ember'', ''frost'',
      ''globe'', ''haven'', ''inlet'', ''joker'', ''karma'', ''lemon'', ''mirth'', ''noble'',
      ''oasis'', ''prism'', ''quilt'', ''raven'', ''solar'', ''thorn'', ''ultra'', ''vigor'',
      ''wired'', ''pixel'', ''arrow'', ''brisk'', ''candy'', ''delta'', ''elbow'', ''fiery'',
      ''ghost'', ''humor'', ''index'', ''jolly'', ''kneel'', ''logic'', ''metal'', ''nerve'',
      ''orbit'', ''pulse'', ''quiet'', ''roast'', ''shark'', ''trail'', ''unity'', ''vault'',
      ''wagon'', ''yield'', ''bliss'', ''charm'', ''dwarf'', ''ethos'', ''fable'', ''glyph'',
      ''haste'', ''irony'', ''jazzy'', ''kiosk'', ''lyric'', ''mocha'', ''nexus'', ''olive'',
      ''piano'', ''reign'', ''spice'', ''tulip'', ''usher'', ''viper'', ''widow'', ''zesty'',
      ''acorn'', ''basin'', ''cliff'', ''dodge'', ''epoch'', ''flint'', ''grain'', ''hydra'',
      ''image'', ''joint'', ''kayak'', ''libra'', ''marsh'', ''north'', ''omega'', ''plume'',
      ''quota'', ''ridge'', ''swirl'', ''torch'', ''urban'', ''verge'', ''whisk'', ''axiom'']"

subsection \<open>Standard passwords\<close>

text \<open>
  \<open>"".join(c for c in chars if c not in AMBIGUOUS_CHARS)\<close>.
\<close>

definition strip_ambiguous :: "string \<Rightarrow> string" where
  "strip_ambiguous chars = filter (\<lambda>c. c \<notin> set AMBIGUOUS_CHARS) chars"

text \<open>
  One \<open>if <flag>:\<close> block of \<open>generate_standard\<close>: take the class's characters,
  strip the ambiguous ones when asked to, append them to the pool and append one random
  character of them to \<open>required\<close>. The source writes the block out four times, for
  lowercase, uppercase, digits and symbols in this order; the block for symbols has no
  stripping step, which is the block with \<open>exclude_ambiguous\<close> fixed to \<open>False\<close>.
\<close>

definition class_block :: "bool \<Rightarrow> string \<Rightarrow> bool \<Rightarrow> string \<times> string \<Rightarrow> (string \<times> string) gen" where
  "class_block selected class_chars exclude_ambiguous st =
     (case st of (pool, required) \<Rightarrow>
        if selected then
          (let chars = class_chars;
               chars = (if exclude_ambiguous then strip_ambiguous chars else chars)
           in bind_gen (choice chars) (\<lambda>c. return_gen (pool @ chars, required @ [c])))
        else return_gen (pool, required))"

text \<open>\<open>[secrets.choice(seq) for _ in range(n)]\<close>: \<open>n\<close> draws, in order.\<close>

fun choices :: "'a list \<Rightarrow> nat \<Rightarrow> 'a list gen" where
  "choices seq 0 = return_gen []"
| "choices seq (Suc n) =
     bind_gen (choice seq) (\<lambda>c. bind_gen (choices seq n) (\<lambda>cs. return_gen (c # cs)))"

text \<open>
  The Fisher-Yates loop \<open>for i in range(len(password_chars) - 1, 0, -1)\<close>: the index
  \<open>i\<close> runs from the first argument down to 1, and each step swaps the positions \<open>i\<close>
  and \<open>j = secrets.randbelow(i + 1)\<close>. Both indices stay inside the list.
\<close>

fun shuffle_from :: "nat \<Rightarrow> 'a list \<Rightarrow> 'a list gen" where
  "shuffle_from 0 password_chars = return_gen password_chars"
| "shuffle_from (Suc k) password_chars =
     (let i = Suc k
      in bind_gen (randbelow (i + 1))
           (\<lambda>j. shuffle_from k (password_chars[i := password_chars ! j, j := password_chars ! i])))"

text \<open>
  \<open>generate_standard\<close>, with the parameters in the order of the source. The length is
  clamped first; the four class blocks run next; the pool is tested only then.
\<close>

definition generate_standard ::
    "int \<Rightarrow> bool \<Rightarrow> bool \<Rightarrow> bool \<Rightarrow> bool \<Rightarrow> bool \<Rightarrow> string gen" where
  "generate_standard len uppercase lowercase numbers symbols exclude_ambiguous =
     (let len = max 8 (min 128 len)
      in bind_gen (class_block lowercase ascii_lowercase exclude_ambiguous ('''', [])) (\<lambda>st.
         bind_gen (class_block uppercase ascii_uppercase exclude_ambiguous st) (\<lambda>st.
         bind_gen (class_block numbers digits exclude_ambiguous st) (\<lambda>st.
         bind_gen (class_block symbols punctuation False st) (\<lambda>(pool, required).
           if pool = [] then
             raise_gen (ValueError ''At least one character class must be selected.'')
           else
             (let remaining_length = len - int (length required)
              in bind_gen (choices pool (nat remaining_length)) (\<lambda>filler.
                 (let password_chars = required @ filler
                  in shuffle_from (length password_chars - 1) password_chars))))))))"

subsection \<open>PINs and passphrases\<close>

definition generate_pin :: "int \<Rightarrow> string gen" where
  "generate_pin len = (let len = max 4 (min 6 len) in choices digits (nat len))"

text \<open>\<open>sep.join(items)\<close>.\<close>

fun join :: "'a list \<Rightarrow> 'a list list \<Rightarrow> 'a list" where
  "join sep [] = []"
| "join sep [x] = x"
| "join sep (x # y # ys) = x @ sep @ join sep (y # ys)"

definition generate_passphrase :: "int \<Rightarrow> string gen" where
  "generate_passphrase word_count =
     (let word_count = max 3 (min 5 word_count)
      in bind_gen (choices WORD_LIST (nat word_count)) (\<lambda>words. return_gen (join ''-'' words)))"

subsection \<open>The dispatcher\<close>

text \<open>
  The options are a dictionary from keys to dynamically typed values: \<open>None\<close>, a boolean,
  an integer or a string. \<open>options.get(key, default)\<close> is \<open>dict_get\<close>.
\<close>

datatype pyval = PyNone | PyBool bool | PyInt int | PyStr string

definition dict_get :: "(string \<rightharpoonup> pyval) \<Rightarrow> string \<Rightarrow> pyval \<Rightarrow> pyval" where
  "dict_get d key dflt = (case d key of None \<Rightarrow> dflt | Some v \<Rightarrow> v)"

text \<open>The truth value of a value, as an \<open>if\<close> tests it.\<close>

fun truthy :: "pyval \<Rightarrow> bool" where
  "truthy PyNone = False"
| "truthy (PyBool b) = b"
| "truthy (PyInt i) = (i \<noteq> 0)"
| "truthy (PyStr s) = (s \<noteq> [])"

text \<open>
  A value compared with an integer by \<open>min\<close> and \<open>max\<close>: an integer is itself, a boolean
  is 0 or 1, and \<open>None\<close> or a string makes the comparison raise \<open>TypeError\<close>. Each
  generator clamps its length in its first statement, so the exception is raised before
  any draw.
\<close>

fun as_int :: "pyval \<Rightarrow> exn + int" where
  "as_int (PyInt i) = Inr i"
| "as_int (PyBool b) = Inr (if b then 1 else 0)"
| "as_int PyNone = Inl TypeError"
| "as_int (PyStr s) = Inl TypeError"

definition with_int :: "pyval \<Rightarrow> (int \<Rightarrow> 'a gen) \<Rightarrow> 'a gen" where
  "with_int v f = (case as_int v of Inl e \<Rightarrow> raise_gen e | Inr i \<Rightarrow> f i)"

text \<open>
  The result dictionary; the keys \<open>password\<close> and \<open>type\<close> are the fields
  \<open>password_f\<close> and \<open>type_f\<close>.
\<close>

record generated =
  password_f :: string
  type_f :: pyval

definition generate_password :: "(string \<rightharpoonup> pyval) \<Rightarrow> generated gen" where
  "generate_password options =
     (let pw_type = dict_get options ''type'' (PyStr ''standard'')
      in bind_gen
           (if pw_type = PyStr ''pin'' then
              with_int (dict_get options ''length'' (PyInt 4)) generate_pin
            else if pw_type = PyStr ''passphrase'' then
              with_int (dict_get options ''word_count'' (PyInt 4)) generate_passphrase
            else
              with_int (dict_get options ''length'' (PyInt 16)) (\<lambda>len.
                generate_standard len
                  (truthy (dict_get options ''uppercase'' (PyBool True)))
                  (truthy (dict_get options ''lowercase'' (PyBool True)))
                  (truthy (dict_get options ''numbers'' (PyBool True)))
                  (truthy (dict_get options ''symbols'' (PyBool True)))
                  (truthy (dict_get options ''exclude_ambiguous'' (PyBool False)))))
           (\<lambda>password. return_gen \<lparr>password_f = password, type_f = pw_type\<rparr>))"

section \<open>hash\_utils.py: the breach check\<close>

subsection \<open>String methods\<close>

text \<open>
  The characters \<open>str.strip\<close> removes and the characters \<open>str.splitlines\<close> breaks at,
  among the code points 0..255: tab, line feed, vertical tab, form feed, carriage return,
  the separators 28..31, space, next line (133) and no-break space (160) are white space;
  all of them but tab, 31, space and 160 end a line.
\<close>

definition is_space :: "char \<Rightarrow> bool" where
  "is_space c = (of_char c \<in> set [9, 10, 11, 12, 13, 28, 29, 30, 31, 32, 133, 160 :: nat])"

definition is_linebreak :: "char \<Rightarrow> bool" where
  "is_linebreak c = (of_char c \<in> set [10, 11, 12, 13, 28, 29, 30, 133 :: nat])"

text \<open>Dropping the characters of a class from both ends; \<open>str.strip()\<close>.\<close>

definition trim :: "(char \<Rightarrow> bool) \<Rightarrow> string \<Rightarrow> string" where
  "trim P s = rev (dropWhile P (rev (dropWhile P s)))"

definition strip :: "string \<Rightarrow> string" where
  "strip s = trim is_space s"

text \<open>
  \<open>str.splitlines()\<close>: the lines without their line ends; a carriage return followed by
  a line feed is one line end; no empty line is reported after the last line end.
\<close>

fun splitlines_from :: "string \<Rightarrow> string \<Rightarrow> string list" where
  "splitlines_from cur [] = (if cur = [] then [] else [cur])"
| "splitlines_from cur [c] = (if is_linebreak c then [cur] else [cur @ [c]])"
| "splitlines_from cur (c # d # cs) =
     (if c = CHR 0x0D \<and> d = CHR 0x0A then cur # splitlines_from [] cs
      else if is_linebreak c then cur # splitlines_from [] (d # cs)
      else splitlines_from (cur @ [c]) (d # cs))"

definition splitlines :: "string \<Rightarrow> string list" where
  "splitlines s = splitlines_from [] s"

text \<open>\<open>str.split(sep)\<close> for a separator of one character.\<close>

fun split_from :: "char \<Rightarrow> string \<Rightarrow> string \<Rightarrow> string list" where
  "split_from sep cur [] = [cur]"
| "split_from sep cur (c # cs) =
     (if c = sep then cur # split_from sep [] cs else split_from sep (cur @ [c]) cs)"

definition split :: "char \<Rightarrow> string \<Rightarrow> string list" where
  "split sep s = split_from sep [] s"

text \<open>\<open>str.upper()\<close> on ASCII text: the letters a..z move to A..Z.\<close>

definition upper_char :: "char \<Rightarrow> char" where
  "upper_char c =
     (case map_of (zip ''abcdefghijklmnopqrstuvwxyz'' ''ABCDEFGHIJKLMNOPQRSTUVWXYZ'') c of
        None \<Rightarrow> c
      | Some u \<Rightarrow> u)"

definition upper :: "string \<Rightarrow> string" where
  "upper s = map upper_char s"

subsection \<open>Reading an integer\<close>

text \<open>
  \<open>int(s)\<close> for a string: white space around the literal is dropped, one sign may
  lead, and the digits may be grouped by single underscores between digits. Anything
  else raises \<open>ValueError\<close>. The white space of \<open>int()\<close> is narrower than that of
  \<open>str.strip\<close>: among the code points 0..255 it is tab, line feed, vertical tab, form
  feed, carriage return, space, next line (133) and no-break space (160), without the
  separators 28..31. The flag of \<open>int_digits\<close> says that a digit must come next (at the
  start and after an underscore). A well-formed literal with more digits than
  \<open>sys.get_int_max_str_digits()\<close>, 4300 unless the interpreter is configured otherwise,
  raises \<open>ValueError\<close> as well.
\<close>

definition is_int_space :: "char \<Rightarrow> bool" where
  "is_int_space c = (of_char c \<in> set [9, 10, 11, 12, 13, 32, 133, 160 :: nat])"

definition is_digit :: "char \<Rightarrow> bool" where
  "is_digit c = (48 \<le> (of_char c :: nat) \<and> (of_char c :: nat) \<le> 57)"

definition digit_value :: "char \<Rightarrow> nat" where
  "digit_value c = of_char c - 48"

fun int_digits :: "nat \<Rightarrow> bool \<Rightarrow> string \<Rightarrow> nat option" where
  "int_digits acc need_digit [] = (if need_digit then None else Some acc)"
| "int_digits acc need_digit (c # cs) =
     (if c = CHR ''_'' then (if need_digit then None else int_digits acc True cs)
      else if is_digit c then int_digits (10 * acc + digit_value c) False cs
      else None)"

definition MAX_STR_DIGITS :: nat where
  "MAX_STR_DIGITS = 4300"

definition py_int :: "string \<Rightarrow> exn + int" where
  "py_int s =
     (let t = trim is_int_space s;
          negative = (t \<noteq> [] \<and> hd t = CHR ''-'');
          signed = (t \<noteq> [] \<and> (hd t = CHR ''-'' \<or> hd t = CHR ''+''));
          body = (if signed then tl t else t);
          ndigits = length (filter is_digit body)
      in case int_digits 0 True body of
           None \<Rightarrow> Inl (IntLiteralError s)
         | Some n \<Rightarrow>
             if ndigits > MAX_STR_DIGITS then Inl (IntTooLongError ndigits)
             else Inr (if negative then - int n else int n))"

subsection \<open>Hashing\<close>

type_synonym byte = "8 word"

definition is_surrogate :: "codepoint \<Rightarrow> bool" where
  "is_surrogate c = (0xD800 \<le> c \<and> c \<le> 0xDFFF)"

text \<open>The UTF-8 bytes of one code point that is not a surrogate.\<close>

definition utf8_char :: "codepoint \<Rightarrow> byte list" where
  "utf8_char c =
     (if c < 0x80 then [of_nat c]
      else if c < 0x800 then [of_nat (0xC0 + c div 64), of_nat (0x80 + c mod 64)]
      else if c < 0x10000 then
        [of_nat (0xE0 + c div 4096), of_nat (0x80 + c div 64 mod 64), of_nat (0x80 + c mod 64)]
      else
        [of_nat (0xF0 + c div 262144), of_nat (0x80 + c div 4096 mod 64),
         of_nat (0x80 + c div 64 mod 64), of_nat (0x80 + c mod 64)])"

text \<open>
  \<open>text.encode("utf-8")\<close>: a string that holds a surrogate code point cannot be encoded;
  the error names the positions of the first run of surrogates. The first argument is
  the position of the head of the remaining text.
\<close>

fun utf8_encode_from :: "nat \<Rightarrow> pystr \<Rightarrow> exn + byte list" where
  "utf8_encode_from pos [] = Inr []"
| "utf8_encode_from pos (c # cs) =
     (if is_surrogate c then
        Inl (UnicodeEncodeError pos (pos + 1 + length (takeWhile is_surrogate cs)))
      else
        (case utf8_encode_from (pos + 1) cs of
           Inl e \<Rightarrow> Inl e
         | Inr bs \<Rightarrow> Inr (utf8_char c @ bs)))"

definition utf8_encode :: "pystr \<Rightarrow> exn + byte list" where
  "utf8_encode txt = utf8_encode_from 0 txt"

text \<open>\<open>hexdigest()\<close>: the 160 bits of a SHA-1 digest as 40 lower-case hex digits.\<close>

definition hex_char :: "nat \<Rightarrow> char" where
  "hex_char n = ''0123456789abcdef'' ! n"

definition hexdigest :: "160 word \<Rightarrow> string" where
  "hexdigest w = map (\<lambda>i. hex_char (unat (drop_bit (4 * (39 - i)) w AND 15))) [0..<40]"

text \<open>
  \<open>sha1_hash\<close>. The compression function of \<open>hashlib.sha1\<close> is a parameter: any function
  from byte strings to 160-bit digests.
\<close>

definition sha1_hash :: "(byte list \<Rightarrow> 160 word) \<Rightarrow> pystr \<Rightarrow> exn + string" where
  "sha1_hash sha1 txt =
     (case utf8_encode txt of
        Inl e \<Rightarrow> Inl e
      | Inr bytes \<Rightarrow> Inr (upper (hexdigest (sha1 bytes))))"

subsection \<open>The HTTP collaborator\<close>

text \<open>
  A request is what \<open>client.get\<close> is called with, together with the timeout of the
  client that sends it. The collaborator (the network and the breach service behind it)
  is a parameter: a function from the request to the response, or to the exception that
  awaiting \<open>client.get\<close> raises, which may be a cancellation or an interrupt.
  \<open>raise_for_status\<close> raises for every status outside 200..299.
  Opening and closing the client are taken to succeed, so a request is sent as soon as
  \<open>client.get\<close> is reached.
\<close>

record request =
  url :: string
  headers :: "(string \<times> string) list"
  timeout :: nat

text \<open>The attribute \<open>text\<close> of a response is the field \<open>text_f\<close>.\<close>

record response =
  status_code :: int
  text_f :: string

definition HIBP_API_URL :: string where
  "HIBP_API_URL = ''https://api.pwnedpasswords.com/range/''"

definition raise_for_status :: "response \<Rightarrow> exn + unit" where
  "raise_for_status r =
     (if 200 \<le> status_code r \<and> status_code r \<le> 299 then Inr ()
      else Inl (HTTPStatusError (status_code r)))"

subsection \<open>check\_breach\<close>

text \<open>The result dictionary; the key \<open>count\<close> is the field \<open>count_f\<close>.\<close>

record breach_result =
  breached :: bool
  count_f :: int
  error :: "string option"

text \<open>The loop over the lines of the answer, with its early return.\<close>

fun scan_lines :: "string list \<Rightarrow> string \<Rightarrow> exn + breach_result" where
  "scan_lines [] suffix = Inr \<lparr>breached = False, count_f = 0, error = None\<rparr>"
| "scan_lines (line # rest) suffix =
     (let parts = split CHR '':'' line
      in if length parts = 2 \<and> strip (parts ! 0) = suffix then
           (case py_int (strip (parts ! 1)) of
              Inl e \<Rightarrow> Inl e
            | Inr n \<Rightarrow> Inr \<lparr>breached = True, count_f = n, error = None\<rparr>)
         else scan_lines rest suffix)"

text \<open>
  The body of the \<open>try\<close> statement: its result or the exception it raises, and the
  requests that were sent, in order.
\<close>

definition check_breach_try ::
    "(byte list \<Rightarrow> 160 word) \<Rightarrow> (request \<Rightarrow> exn + response) \<Rightarrow> pystr
      \<Rightarrow> (exn + breach_result) \<times> request list" where
  "check_breach_try sha1 http_get password =
     (case sha1_hash sha1 password of
        Inl e \<Rightarrow> (Inl e, [])
      | Inr full_hash \<Rightarrow>
          (let prefix = take 5 full_hash;
               suffix = drop 5 full_hash;
               req = \<lparr>url = HIBP_API_URL @ prefix,
                      headers = [(''User-Agent'', ''PasswordGuardian-MiniProject'')],
                      timeout = 10\<rparr>
           in (case http_get req of
                 Inl e \<Rightarrow> Inl e
               | Inr response \<Rightarrow>
                   (case raise_for_status response of
                      Inl e \<Rightarrow> Inl e
                    | Inr _ \<Rightarrow> scan_lines (splitlines (text_f response)) suffix),
               [req])))"

text \<open>
  The three \<open>except\<close> clauses, in the order of the source: a timeout, a status error,
  and any other exception that derives from \<open>Exception\<close>. An exception that no clause
  catches leaves the function. \<open>str(e)\<close>, the text of an exception, is a parameter.
\<close>

definition handle_exception :: "(exn \<Rightarrow> string) \<Rightarrow> exn \<Rightarrow> exn + breach_result" where
  "handle_exception exc_str e =
     (case e of
        TimeoutException \<Rightarrow>
          Inr \<lparr>breached = False, count_f = 0,
               error = Some ''Request timed out. Please try again.''\<rparr>
      | HTTPStatusError code \<Rightarrow>
          Inr \<lparr>breached = False, count_f = 0, error = Some (''API error: '' @ str_int code)\<rparr>
      | _ \<Rightarrow>
          if is_exception e then
            Inr \<lparr>breached = False, count_f = 0, error = Some (''Network error: '' @ exc_str e)\<rparr>
          else Inl e)"

text \<open>
  \<open>check_breach\<close>: the result it returns or the exception it lets through, and the
  requests that were sent.
\<close>

definition check_breach ::
    "(byte list \<Rightarrow> 160 word) \<Rightarrow> (request \<Rightarrow> exn + response) \<Rightarrow> (exn \<Rightarrow> string) \<Rightarrow> pystr
      \<Rightarrow> (exn + breach_result) \<times> request list" where
  "check_breach sha1 http_get exc_str password =
     (case check_breach_try sha1 http_get password of
        (Inr result, sent) \<Rightarrow> (Inr result, sent)
      | (Inl e, sent) \<Rightarrow> (handle_exception exc_str e, sent))"

section \<open>Vocabulary of the specification\<close>

text \<open>
  The specification's words, defined on their own so that the theorems compare them
  with what the code computes: clamping a value into a range, and the subset of a
  character class that remains selectable (the class itself, or the class without the
  characters \<open>i l 1 L o 0 O\<close> when ambiguous characters are excluded).
\<close>

definition clamp :: "int \<Rightarrow> int \<Rightarrow> int \<Rightarrow> int" where
  "clamp x lo hi = (if x < lo then lo else if hi < x then hi else x)"

definition class_subset :: "bool \<Rightarrow> string \<Rightarrow> string" where
  "class_subset exclude_ambiguous chars =
     (if exclude_ambiguous then filter (\<lambda>c. c \<notin> set ''il1Lo0O'') chars else chars)"

text \<open>
  The request of the range query for a hash prefix, and the reading of one line of the
  answer as a record \<open>SUFFIX:COUNT\<close>: a line is a record when it holds exactly one
  colon; its suffix field is the text before the colon and its count text the text after
  it. A line names a suffix when it is a record whose suffix field, with the white space
  around it dropped, is that suffix, character by character.
\<close>

definition range_request :: "string \<Rightarrow> request" where
  "range_request prefix =
     \<lparr>url = ''https://api.pwnedpasswords.com/range/'' @ prefix,
      headers = [(''User-Agent'', ''PasswordGuardian-MiniProject'')],
      timeout = 10\<rparr>"

definition colons :: "string \<Rightarrow> nat" where
  "colons l = length (filter (\<lambda>c. c = CHR '':'') l)"

definition field_text :: "string \<Rightarrow> string" where
  "field_text l = takeWhile (\<lambda>c. c \<noteq> CHR '':'') l"

definition count_text :: "string \<Rightarrow> string" where
  "count_text l = tl (dropWhile (\<lambda>c. c \<noteq> CHR '':'') l)"

definition names_suffix :: "string \<Rightarrow> string \<Rightarrow> bool" where
  "names_suffix suffix l = (colons l = 1 \<and> strip (field_text l) = suffix)"


text \<open>
  Stand-ins for the collaborators, for concrete runs: a digest function that knows the
  SHA-1 digest of the bytes of "password", a service that answers every request with a
  given status and body, a network on which every request times out, a request that is
  cancelled while it is awaited, and a text for exceptions.
\<close>

definition known_sha1 :: "byte list \<Rightarrow> 160 word" where
  "known_sha1 bytes =
     (if bytes = [0x70, 0x61, 0x73, 0x73, 0x77, 0x6F, 0x72, 0x64]
      then 0x5BAA61E4C9B93F3F0682250B6CF8331B7EE68FD8 else 0)"

definition answering :: "int \<Rightarrow> string \<Rightarrow> request \<Rightarrow> exn + response" where
  "answering status body req = Inr \<lparr>status_code = status, text_f = body\<rparr>"

definition timing_out :: "request \<Rightarrow> exn + response" where
  "timing_out req = Inl TimeoutException"

definition cancelling :: "request \<Rightarrow> exn + response" where
  "cancelling req = Inl CancelledError"

definition exc_name :: "exn \<Rightarrow> string" where
  "exc_name e =
     (case e of
        ValueError m \<Rightarrow> m
      | IntLiteralError s \<Rightarrow> ''invalid literal''
      | IntTooLongError n \<Rightarrow> ''too many digits''
      | TypeError \<Rightarrow> ''type error''
      | IndexError \<Rightarrow> ''index error''
      | UnicodeEncodeError i j \<Rightarrow> ''surrogates not allowed''
      | TimeoutException \<Rightarrow> ''timeout''
      | HTTPStatusError c \<Rightarrow> ''status''
      | TransportError m \<Rightarrow> m
      | CancelledError \<Rightarrow> ''cancelled''
      | KeyboardInterrupt \<Rightarrow> ''interrupt''
      | SystemExit \<Rightarrow> ''exit'')"

section \<open>Properties of the strength analysis\<close>

subsection \<open>Regular expressions and character classes\<close>

lemma re_search_iff: "re_search cls s \<longleftrightarrow> (\<exists>c\<in>set s. class_matches cls c)"
  by (simp add: re_search_def list_ex_iff)

lemma lower_class: "class_matches re_lower c \<longleftrightarrow> c \<in> set (py_str ascii_lowercase)"
  unfolding re_lower_def ascii_lowercase_def py_str_def
  by (simp add: in_ranges_def ord_def) arith

lemma upper_class: "class_matches re_upper c \<longleftrightarrow> c \<in> set (py_str ascii_uppercase)"
  unfolding re_upper_def ascii_uppercase_def py_str_def
  by (simp add: in_ranges_def ord_def) arith

lemma digit_class: "class_matches re_digit c \<longleftrightarrow> c \<in> set (py_str digits)"
  unfolding re_digit_def digits_def py_str_def
  by (simp add: in_ranges_def ord_def) arith

lemma symbol_class:
  "class_matches re_symbol c \<longleftrightarrow>
     \<not> (class_matches re_lower c \<or> class_matches re_upper c \<or> class_matches re_digit c)"
  by (simp add: re_symbol_def re_lower_def re_upper_def re_digit_def in_ranges_def)

text \<open>Every character falls into a bucket, so a non-empty password has a character set.\<close>

lemma charset_positive:
  assumes "pw \<noteq> []"
  shows "10 \<le> get_charset_size pw"
proof -
  from assms obtain c where c: "c \<in> set pw" by (cases pw) auto
  have "class_matches re_lower c \<or> class_matches re_upper c \<or> class_matches re_digit c
          \<or> class_matches re_symbol c"
    by (auto simp: symbol_class)
  with c have "re_search re_lower pw \<or> re_search re_upper pw \<or> re_search re_digit pw
                 \<or> re_search re_symbol pw"
    unfolding re_search_iff by blast
  then show ?thesis by (auto simp: get_charset_size_def)
qed

lemmas charset_eval =
  get_charset_size_def re_search_def re_lower_def re_upper_def re_digit_def re_symbol_def
  in_ranges_def py_str_def ord_def

lemma charset_of_a: "get_charset_size (py_str ''a'') = 26"
  by (simp add: charset_eval)

lemma charset_of_Passw0rd: "get_charset_size (py_str ''Passw0rd!'') = 94"
  by (simp add: charset_eval)

lemma charset_of_long: "get_charset_size (py_str ''Aa1!Aa1!Aa1!Aa1!Aa1!A'') = 94"
  by (simp add: charset_eval)

subsection \<open>Logarithms of concrete numbers\<close>

lemma log_26_bounds: "470 < 100 * log 2 26 \<and> 100 * log 2 26 < 471"
proof -
  have a: "log 2 ((2::real) ^ 470) = 470" by (simp add: log_nat_power del: power_numeral)
  have b: "log 2 ((2::real) ^ 471) = 471" by (simp add: log_nat_power del: power_numeral)
  have c: "log 2 ((26::real) ^ 100) = 100 * log 2 26"
    using log_nat_power [of 26 2 100] by simp
  have "(2::real) ^ 470 < 26 ^ 100" by simp
  then have d: "log 2 (2 ^ 470) < log 2 ((26::real) ^ 100)"
    by (subst log_less_cancel_iff) simp_all
  have "(26::real) ^ 100 < 2 ^ 471" by simp
  then have e: "log 2 ((26::real) ^ 100) < log 2 (2 ^ 471)"
    by (subst log_less_cancel_iff) simp_all
  from a b c d e show ?thesis by linarith
qed

lemma log_chain: "0 < x \<Longrightarrow> log 2 x * log 10 2 = log 10 x"
  by (simp add: log_def)

lemma log10_94_21: "40 < 21 * log 10 94"
proof -
  have a: "log 10 ((10::real) ^ 40) = 40" by (simp add: log_nat_power del: power_numeral)
  have c: "log 10 ((94::real) ^ 21) = 21 * log 10 94"
    using log_nat_power [of 94 10 21] by simp
  have "(10::real) ^ 40 < 94 ^ 21" by simp
  then have "log 10 (10 ^ 40) < log 10 ((94::real) ^ 21)"
    by (subst log_less_cancel_iff) simp_all
  with a c show ?thesis by linarith
qed

lemma log10_26: "log 10 26 < 2"
proof -
  have "log 10 26 < log 10 (10 ^ 2)" by (subst log_less_cancel_iff) simp_all
  also have "log 10 ((10::real) ^ 2) = 2" by (simp add: log_nat_power del: power_numeral)
  finally show ?thesis .
qed

lemma log10_guesses: "log 10 ((10::real) ^ 10) = 10"
  by (simp add: log_nat_power del: power_numeral)

lemma format_infinity: "format_crack_time Infinity = ''Virtually uncrackable''"
  by (simp add: format_crack_time_def)

subsection \<open>Strength bands and the empty password\<close>

text \<open>
  C8. The strength bands are half-open on the lower bound and tried in ascending order:
  an entropy below 28 is "Very Weak" (#ef4444), from 28 up to but excluding 36 "Weak"
  (#f97316), from 36 up to but excluding 60 "Moderate" (#eab308), from 60 up to but
  excluding 80 "Strong" (#22c55e), and from 80 on "Very Strong" (#06b6d4).
\<close>

theorem strength_bands:
  "(e < 28 \<longrightarrow> get_strength_label e = \<lparr>label = ''Very Weak'', color = ''#ef4444''\<rparr>) \<and>
   (28 \<le> e \<and> e < 36 \<longrightarrow> get_strength_label e = \<lparr>label = ''Weak'', color = ''#f97316''\<rparr>) \<and>
   (36 \<le> e \<and> e < 60 \<longrightarrow> get_strength_label e = \<lparr>label = ''Moderate'', color = ''#eab308''\<rparr>) \<and>
   (60 \<le> e \<and> e < 80 \<longrightarrow> get_strength_label e = \<lparr>label = ''Strong'', color = ''#22c55e''\<rparr>) \<and>
   (80 \<le> e \<longrightarrow> get_strength_label e = \<lparr>label = ''Very Strong'', color = ''#06b6d4''\<rparr>)"
  by (simp add: get_strength_label_def)

text \<open>
  The boundary values named by the specification: 27.99 is "Very Weak", 28.0 "Weak",
  79.99 "Strong" and 80.0 "Very Strong"; 36 and 60 open their bands as well.
\<close>

theorem strength_bands_witness:
  "label (get_strength_label (2799 / 100)) = ''Very Weak'' \<and>
   get_strength_label 28 = \<lparr>label = ''Weak'', color = ''#f97316''\<rparr> \<and>
   get_strength_label 36 = \<lparr>label = ''Moderate'', color = ''#eab308''\<rparr> \<and>
   get_strength_label 60 = \<lparr>label = ''Strong'', color = ''#22c55e''\<rparr> \<and>
   label (get_strength_label (7999 / 100)) = ''Strong'' \<and>
   get_strength_label 80 = \<lparr>label = ''Very Strong'', color = ''#06b6d4''\<rparr>"
  using strength_bands [of "2799 / 100"] strength_bands [of 28] strength_bands [of 36]
    strength_bands [of 60] strength_bands [of "7999 / 100"] strength_bands [of 80]
  by simp

text \<open>
  C9. The analysis of the empty string is the fixed zero result: length 0, character-set
  size 0, entropy 0, crack time 0 seconds, the label "Very Weak", and every policy flag
  false. The analysis is a total function, so no error is raised.
\<close>

theorem analyze_empty:
  "analyze_password [] =
     \<lparr>length_f = 0, charset_size = 0, entropy = 0, crack_time = ''Instantly'',
      crack_time_seconds = 0,
      strength = \<lparr>label = ''Very Weak'', color = ''#ef4444''\<rparr>,
      policy = \<lparr>min_length = False, has_uppercase = False, has_lowercase = False,
                has_number = False, has_symbol = False\<rparr>\<rparr>"
  by (simp add: analyze_password_def)

subsection \<open>Character-set size and entropy\<close>

text \<open>
  C5, as the specification states it, fails on the reported entropy: the result carries
  \<open>round(entropy, 2)\<close>. For the password "a" the character set has 26 elements, and the
  reported entropy differs from \<open>1 * log2(26)\<close>, which is no multiple of 1/100.
\<close>

theorem reported_entropy_is_rounded:
  "entropy (analyze_password (py_str ''a'')) \<noteq>
     real (length (py_str ''a'')) * log 2 (real (charset_size (analyze_password (py_str ''a''))))"
proof -
  have ne: "py_str ''a'' \<noteq> []" by (simp add: py_str_def)
  have l: "length (py_str ''a'') = 1" by (simp add: py_str_def)
  have e: "entropy (analyze_password (py_str ''a'')) = py_round (log 2 26) 2"
    using ne by (simp add: analyze_password_def charset_of_a l Let_def)
  have cs: "charset_size (analyze_password (py_str ''a'')) = 26"
    using ne by (simp add: analyze_password_def charset_of_a l Let_def)
  have "py_round (log 2 26) 2 \<noteq> log 2 26"
  proof
    assume "py_round (log 2 26) 2 = log 2 26"
    then have "of_int (round_half_even (log 2 26 * 100)) = 100 * log 2 26"
      by (simp add: py_round_def field_simps)
    with log_26_bounds have "(470::real) < of_int (round_half_even (log 2 26 * 100))"
      "of_int (round_half_even (log 2 26 * 100)) < (471::real)" by simp_all
    then have "470 < round_half_even (log 2 26 * 100)" "round_half_even (log 2 26 * 100) < 471"
      by linarith+
    then show False by linarith
  qed
  then show ?thesis by (simp add: e cs l)
qed

text \<open>
  C5, amended. For every non-empty password the reported character-set size is the sum
  of the fixed buckets present (26 for a lower-case letter, 26 for an upper-case letter,
  10 for a digit, 32 for any character that is neither), and the reported entropy is
  length times \<open>log2\<close> of that size, rounded to two decimal places (or 0 if the size
  is 0).
\<close>

theorem analyze_charset_entropy:
  assumes "pw \<noteq> []"
  shows "charset_size (analyze_password pw) =
           (if \<exists>c\<in>set pw. c \<in> set (py_str ascii_lowercase) then 26 else 0) +
           (if \<exists>c\<in>set pw. c \<in> set (py_str ascii_uppercase) then 26 else 0) +
           (if \<exists>c\<in>set pw. c \<in> set (py_str digits) then 10 else 0) +
           (if \<exists>c\<in>set pw. c \<notin> set (py_str (ascii_lowercase @ ascii_uppercase @ digits))
            then 32 else 0) \<and>
         length_f (analyze_password pw) = length pw \<and>
         entropy (analyze_password pw) =
           (if charset_size (analyze_password pw) = 0 then 0
            else py_round (real (length_f (analyze_password pw))
                            * log 2 (real (charset_size (analyze_password pw)))) 2)"
proof -
  have sym: "re_search re_symbol pw \<longleftrightarrow>
      (\<exists>c\<in>set pw. c \<notin> set (py_str (ascii_lowercase @ ascii_uppercase @ digits)))"
    by (simp add: re_search_iff symbol_class lower_class upper_class digit_class py_str_def)
  have cs: "charset_size (analyze_password pw) = get_charset_size pw"
    using assms by (simp add: analyze_password_def Let_def)
  have pos: "0 < get_charset_size pw" using charset_positive [OF assms] by simp
  have 1: "get_charset_size pw =
           (if \<exists>c\<in>set pw. c \<in> set (py_str ascii_lowercase) then 26 else 0) +
           (if \<exists>c\<in>set pw. c \<in> set (py_str ascii_uppercase) then 26 else 0) +
           (if \<exists>c\<in>set pw. c \<in> set (py_str digits) then 10 else 0) +
           (if \<exists>c\<in>set pw. c \<notin> set (py_str (ascii_lowercase @ ascii_uppercase @ digits))
            then 32 else 0)"
    unfolding get_charset_size_def Let_def sym
    by (simp add: re_search_iff lower_class upper_class digit_class)
  have 2: "entropy (analyze_password pw) =
           py_round (real (length pw) * log 2 (real (get_charset_size pw))) 2"
    using assms pos by (simp add: analyze_password_def Let_def)
  have 3: "length_f (analyze_password pw) = length pw"
    using assms by (simp add: analyze_password_def Let_def)
  have 4: "entropy (analyze_password pw) =
           (if charset_size (analyze_password pw) = 0 then 0
            else py_round (real (length_f (analyze_password pw))
                            * log 2 (real (charset_size (analyze_password pw)))) 2)"
    using 2 pos by (simp only: cs 3) simp
  from 1 3 4 show ?thesis unfolding cs by blast
qed

theorem analyze_charset_entropy_witness:
  "charset_size (analyze_password (py_str ''Passw0rd!'')) = 94 \<and>
   length_f (analyze_password (py_str ''Passw0rd!'')) = 9 \<and>
   entropy (analyze_password (py_str ''Passw0rd!'')) = py_round (9 * log 2 94) 2"
proof -
  have ne: "py_str ''Passw0rd!'' \<noteq> []" by (simp add: py_str_def)
  have cs: "charset_size (analyze_password (py_str ''Passw0rd!'')) = 94"
    using analyze_charset_entropy [OF ne]
    by (simp add: py_str_def ord_def ascii_lowercase_def ascii_uppercase_def digits_def)
  show ?thesis using analyze_charset_entropy [OF ne] cs by (simp add: py_str_def)
qed

subsection \<open>Crack time\<close>

text \<open>
  C6. For every password with positive entropy, the logarithm of the crack time is
  \<open>entropy * log10(2) - log10(10^10)\<close>, with the entropy taken before rounding. When it
  exceeds 30, the field \<open>crack_time_seconds\<close> is the sentinel -1 and the label is
  "Virtually uncrackable"; otherwise the field is 10 to the power of that logarithm.
\<close>

theorem crack_time_by_logarithms:
  assumes "0 < real (length pw) * log 2 (real (get_charset_size pw))"
  shows "(30 < real (length pw) * log 2 (real (get_charset_size pw)) * log 10 2
               - log 10 (10 ^ 10) \<longrightarrow>
            crack_time_seconds (analyze_password pw) = - 1 \<and>
            crack_time (analyze_password pw) = ''Virtually uncrackable'') \<and>
         (\<not> 30 < real (length pw) * log 2 (real (get_charset_size pw)) * log 10 2
               - log 10 (10 ^ 10) \<longrightarrow>
            crack_time_seconds (analyze_password pw) =
              10 powr (real (length pw) * log 2 (real (get_charset_size pw)) * log 10 2
                        - log 10 (10 ^ 10)))"
proof -
  from assms have ne: "pw \<noteq> []" by auto
  have pos: "0 < get_charset_size pw" using charset_positive [OF ne] by simp
  show ?thesis
    using ne pos assms
    by (simp add: analyze_password_def Let_def GUESSES_PER_SECOND_def format_infinity)
qed

text \<open>
  A password of 21 characters over all four buckets is beyond the threshold; the
  password "a" is below it.
\<close>

theorem crack_time_by_logarithms_witness:
  "crack_time_seconds (analyze_password (py_str ''Aa1!Aa1!Aa1!Aa1!Aa1!A'')) = - 1 \<and>
   crack_time (analyze_password (py_str ''Aa1!Aa1!Aa1!Aa1!Aa1!A'')) = ''Virtually uncrackable'' \<and>
   crack_time_seconds (analyze_password (py_str ''a'')) = 10 powr (log 10 26 - 10)"
proof -
  have l1: "real (length (py_str ''Aa1!Aa1!Aa1!Aa1!Aa1!A'')) = 21" by (simp add: py_str_def)
  have e1: "real (length (py_str ''Aa1!Aa1!Aa1!Aa1!Aa1!A'')) *
             log 2 (real (get_charset_size (py_str ''Aa1!Aa1!Aa1!Aa1!Aa1!A''))) * log 10 2
            = 21 * log 10 94"
    unfolding l1 charset_of_long using log_chain [of 94] by simp
  have p1: "0 < real (length (py_str ''Aa1!Aa1!Aa1!Aa1!Aa1!A'')) *
             log 2 (real (get_charset_size (py_str ''Aa1!Aa1!Aa1!Aa1!Aa1!A'')))"
    unfolding l1 charset_of_long by simp
  have big: "30 < real (length (py_str ''Aa1!Aa1!Aa1!Aa1!Aa1!A'')) *
             log 2 (real (get_charset_size (py_str ''Aa1!Aa1!Aa1!Aa1!Aa1!A''))) * log 10 2
             - log 10 (10 ^ 10)"
    unfolding e1 log10_guesses using log10_94_21 by linarith
  have l2: "real (length (py_str ''a'')) = 1" by (simp add: py_str_def)
  have e2: "real (length (py_str ''a'')) * log 2 (real (get_charset_size (py_str ''a'')))
              * log 10 2 = log 10 26"
    unfolding l2 charset_of_a using log_chain [of 26] by simp
  have p2: "0 < real (length (py_str ''a'')) * log 2 (real (get_charset_size (py_str ''a'')))"
    unfolding l2 charset_of_a by simp
  have small: "\<not> 30 < real (length (py_str ''a'')) *
                 log 2 (real (get_charset_size (py_str ''a''))) * log 10 2 - log 10 (10 ^ 10)"
    unfolding e2 log10_guesses using log10_26 by linarith
  from crack_time_by_logarithms [OF p1] big
  have A: "crack_time_seconds (analyze_password (py_str ''Aa1!Aa1!Aa1!Aa1!Aa1!A'')) = - 1 \<and>
     crack_time (analyze_password (py_str ''Aa1!Aa1!Aa1!Aa1!Aa1!A'')) = ''Virtually uncrackable''"
    by blast
  from crack_time_by_logarithms [OF p2] small
  have "crack_time_seconds (analyze_password (py_str ''a'')) =
     10 powr (real (length (py_str ''a'')) * log 2 (real (get_charset_size (py_str ''a'')))
               * log 10 2 - log 10 (10 ^ 10))"
    by blast
  then have B: "crack_time_seconds (analyze_password (py_str ''a'')) = 10 powr (log 10 26 - 10)"
    unfolding e2 log10_guesses .
  from A B show ?thesis by blast
qed

section \<open>Properties of the generators\<close>

subsection \<open>Draws and the shuffle\<close>

lemma choice_ok:
  assumes "seq \<noteq> []"
  obtains c g' where "choice seq g = (Inr c, g')" "c \<in> set seq"
  using assms by (simp add: choice_def)

lemma choices_ok:
  assumes "seq \<noteq> []"
  shows "\<exists>cs g'. choices seq n g = (Inr cs, g') \<and> length cs = n \<and> set cs \<subseteq> set seq"
proof (induction n arbitrary: g)
  case 0
  then show ?case by (simp add: return_gen_def)
next
  case (Suc n)
  obtain c g1 where c: "choice seq g = (Inr c, g1)" "c \<in> set seq"
    using choice_ok [OF assms] by blast
  obtain cs g2 where cs: "choices seq n g1 = (Inr cs, g2)" "length cs = n" "set cs \<subseteq> set seq"
    using Suc.IH by blast
  show ?case using c cs by (simp add: bind_gen_def return_gen_def)
qed

lemma shuffle_from_ok:
  assumes "k < length xs"
  shows "\<exists>ys g'. shuffle_from k xs g = (Inr ys, g') \<and> mset ys = mset xs"
  using assms
proof (induction k arbitrary: xs g)
  case 0
  then show ?case by (simp add: return_gen_def)
next
  case (Suc k)
  define j where "j = shd g mod (Suc k + 1)"
  have "j < Suc k + 1" by (simp add: j_def)
  with Suc.prems have j: "j < length xs" by linarith
  define xs' where "xs' = xs[Suc k := xs ! j, j := xs ! Suc k]"
  have m: "mset xs' = mset xs" unfolding xs'_def using Suc.prems j by (simp add: mset_swap)
  have l: "k < length xs'" using Suc.prems by (simp add: xs'_def)
  obtain ys g' where "shuffle_from k xs' (stl g) = (Inr ys, g')" "mset ys = mset xs'"
    using Suc.IH [OF l] by blast
  then show ?case using m
    by (simp add: bind_gen_def randbelow_def Let_def j_def xs'_def)
qed


subsection \<open>The class blocks and one run of the generator\<close>

lemma class_block_unselected: "class_block False chars excl st g = (Inr st, g)"
  by (simp add: class_block_def return_gen_def split: prod.splits)

lemma class_block_selected:
  assumes "class_subset excl chars \<noteq> []"
  shows "\<exists>c g'. class_block True chars excl (pool, req) g =
            (Inr (pool @ class_subset excl chars, req @ [c]), g') \<and> c \<in> set (class_subset excl chars)"
proof -
  have eq: "(if excl then strip_ambiguous chars else chars) = class_subset excl chars"
    by (simp add: class_subset_def strip_ambiguous_def AMBIGUOUS_CHARS_def)
  obtain c g' where "choice (class_subset excl chars) g = (Inr c, g')" "c \<in> set (class_subset excl chars)"
    using choice_ok [OF assms] by blast
  then show ?thesis
    by (simp add: class_block_def Let_def eq bind_gen_def return_gen_def)
qed

lemma class_block_step:
  assumes "class_subset excl chars \<noteq> []"
  shows "\<exists>r g'. class_block sel chars excl (pool, req) g =
            (Inr (pool @ (if sel then class_subset excl chars else []), req @ r), g') \<and>
          set r \<subseteq> set (if sel then class_subset excl chars else []) \<and>
          length r = (if sel then 1 else 0)"
proof (cases sel)
  case True
  obtain c g' where "class_block True chars excl (pool, req) g =
            (Inr (pool @ class_subset excl chars, req @ [c]), g')" "c \<in> set (class_subset excl chars)"
    using class_block_selected [OF assms] by blast
  then show ?thesis using True by (intro exI [of _ "[c]"] exI [of _ g']) simp
next
  case False
  then show ?thesis by (simp add: class_block_unselected)
qed

lemma subset_nonempty:
  "class_subset excl ascii_lowercase \<noteq> []" "class_subset excl ascii_uppercase \<noteq> []"
  "class_subset excl digits \<noteq> []" "class_subset False punctuation \<noteq> []"
  by (simp_all add: class_subset_def ascii_lowercase_def ascii_uppercase_def digits_def punctuation_def)

lemma generate_standard_run:
  assumes sel: "uppercase \<or> lowercase \<or> numbers \<or> symbols"
  obtains pw g' r1 r2 r3 r4 filler where
    "generate_standard len uppercase lowercase numbers symbols excl g = (Inr pw, g')"
    "int (length pw) = max 8 (min 128 len)"
    "mset pw = mset (r1 @ r2 @ r3 @ r4 @ filler)"
    "set filler \<subseteq> set (if lowercase then class_subset excl ascii_lowercase else []) \<union>
                  set (if uppercase then class_subset excl ascii_uppercase else []) \<union>
                  set (if numbers then class_subset excl digits else []) \<union>
                  set (if symbols then punctuation else [])"
    "set r1 \<subseteq> set (if lowercase then class_subset excl ascii_lowercase else [])"
    "length r1 = (if lowercase then 1 else 0)"
    "set r2 \<subseteq> set (if uppercase then class_subset excl ascii_uppercase else [])"
    "length r2 = (if uppercase then 1 else 0)"
    "set r3 \<subseteq> set (if numbers then class_subset excl digits else [])"
    "length r3 = (if numbers then 1 else 0)"
    "set r4 \<subseteq> set (if symbols then punctuation else [])"
    "length r4 = (if symbols then 1 else 0)"
proof -
  define L where "L = (if lowercase then class_subset excl ascii_lowercase else [])"
  define U where "U = (if uppercase then class_subset excl ascii_uppercase else [])"
  define N where "N = (if numbers then class_subset excl digits else [])"
  define S where "S = (if symbols then punctuation else [])"
  have Sf: "S = (if symbols then class_subset False punctuation else [])"
    by (simp add: S_def class_subset_def)
  obtain r1 g1 where 1: "class_block lowercase ascii_lowercase excl ('''', []) g = (Inr (L, r1), g1)"
      "set r1 \<subseteq> set L" "length r1 = (if lowercase then 1 else 0)"
    using class_block_step [OF subset_nonempty(1), where sel = lowercase and pool = "[]" and req = "[]" and g = g and excl = excl]
    unfolding L_def by auto
  obtain r2 g2 where 2: "class_block uppercase ascii_uppercase excl (L, r1) g1 = (Inr (L @ U, r1 @ r2), g2)"
      "set r2 \<subseteq> set U" "length r2 = (if uppercase then 1 else 0)"
    using class_block_step [OF subset_nonempty(2), where sel = uppercase and pool = L and req = r1 and g = g1 and excl = excl]
    unfolding U_def by auto
  obtain r3 g3 where 3: "class_block numbers digits excl (L @ U, r1 @ r2) g2 = (Inr ((L @ U) @ N, (r1 @ r2) @ r3), g3)"
      "set r3 \<subseteq> set N" "length r3 = (if numbers then 1 else 0)"
    using class_block_step [OF subset_nonempty(3), where sel = numbers and pool = "L @ U" and req = "r1 @ r2" and g = g2 and excl = excl]
    unfolding N_def by auto
  obtain r4 g4 where 4: "class_block symbols punctuation False ((L @ U) @ N, (r1 @ r2) @ r3) g3
        = (Inr (((L @ U) @ N) @ S, ((r1 @ r2) @ r3) @ r4), g4)"
      "set r4 \<subseteq> set S" "length r4 = (if symbols then 1 else 0)"
    using class_block_step [OF subset_nonempty(4), where sel = symbols and pool = "(L @ U) @ N" and req = "(r1 @ r2) @ r3" and g = g3]
    unfolding Sf by auto
  define pool where "pool = ((L @ U) @ N) @ S"
  define required where "required = ((r1 @ r2) @ r3) @ r4"
  define n where "n = max 8 (min 128 len)"
  have pool_ne: "pool \<noteq> []"
    using sel by (auto simp: pool_def L_def U_def N_def S_def punctuation_def subset_nonempty)
  have lr: "length required \<le> 4"
    using 1(3) 2(3) 3(3) 4(3) by (simp add: required_def)
  have n8: "8 \<le> n" by (simp add: n_def)
  obtain filler g5 where f: "choices pool (nat (n - int (length required))) g4 = (Inr filler, g5)"
      "length filler = nat (n - int (length required))" "set filler \<subseteq> set pool"
    using choices_ok [OF pool_ne] by blast
  have len_pc: "int (length (required @ filler)) = n"
    using f(2) lr n8 by simp
  then have "length (required @ filler) - 1 < length (required @ filler)"
    using n8 by linarith
  then obtain pw g6 where s: "shuffle_from (length (required @ filler) - 1) (required @ filler) g5 = (Inr pw, g6)"
      "mset pw = mset (required @ filler)"
    using shuffle_from_ok by blast
  have run: "generate_standard len uppercase lowercase numbers symbols excl g = (Inr pw, g6)"
    unfolding generate_standard_def Let_def
    using 1(1) 2(1) 3(1) 4(1) pool_ne [unfolded pool_def] f(1) [unfolded pool_def required_def]
      s(1) [unfolded required_def]
    by (auto simp add: bind_gen_def n_def [symmetric])
  have "length pw = length (required @ filler)"
    using s(2) by (metis size_mset)
  then have lenpw: "int (length pw) = max 8 (min 128 len)"
    using len_pc n_def by simp
  have fill: "set filler \<subseteq> set L \<union> set U \<union> set N \<union> set S"
    using f(3) by (auto simp add: pool_def)
  have ms: "mset pw = mset (r1 @ r2 @ r3 @ r4 @ filler)"
    using s(2) by (simp add: required_def)
  show ?thesis
    by (rule that [OF run lenpw ms fill [unfolded L_def U_def N_def S_def]
          1(2) [unfolded L_def] 1(3) 2(2) [unfolded U_def] 2(3)
          3(2) [unfolded N_def] 3(3) 4(2) [unfolded S_def] 4(3)])
qed

subsection \<open>The character classes\<close>

lemma class_subset_subset: "set (class_subset excl chars) \<subseteq> set chars"
  by (auto simp: class_subset_def)

lemma class_subset_unambiguous: "set (class_subset True chars) \<inter> set ''il1Lo0O'' = {}"
  by (auto simp: class_subset_def)

lemma punctuation_unambiguous: "set punctuation \<inter> set ''il1Lo0O'' = {}"
  by (simp add: punctuation_def)

lemma classes_disjoint:
  "set ascii_lowercase \<inter> set ascii_uppercase = {}"
  "set ascii_lowercase \<inter> set digits = {}"
  "set ascii_lowercase \<inter> set punctuation = {}"
  "set ascii_uppercase \<inter> set digits = {}"
  "set ascii_uppercase \<inter> set punctuation = {}"
  "set digits \<inter> set punctuation = {}"
  by (simp_all add: ascii_lowercase_def ascii_uppercase_def digits_def punctuation_def)

lemma singleton_list: "length r = (1::nat) \<Longrightarrow> \<exists>c. r = [c]"
  by (cases r) auto

subsection \<open>A run on a fixed stream of draws\<close>

text \<open>
  The draws 0, 3, 6, ... for a digits-only password of length 8: the required digit is
  0, the filler is 3692581, and the shuffle swaps the positions 7..1 with the positions
  0, 6, 0, 3, 0, 0, 0.
\<close>

lemma choices_numeral:
  "choices seq (numeral k) =
     bind_gen (choice seq) (\<lambda>c. bind_gen (choices seq (pred_numeral k)) (\<lambda>cs. return_gen (c # cs)))"
  by (simp add: numeral_eq_Suc)

lemma shuffle_numeral:
  "shuffle_from (numeral k) xs =
     bind_gen (randbelow (numeral k + 1))
       (\<lambda>j. shuffle_from (pred_numeral k) (xs[numeral k := xs ! j, j := xs ! numeral k]))"
  by (simp add: numeral_eq_Suc Let_def)

lemma shuffle_one:
  "shuffle_from (Suc 0) xs =
     bind_gen (randbelow 2) (\<lambda>j. return_gen (xs[Suc 0 := xs ! j, j := xs ! Suc 0]))"
proof -
  have "Suc 0 + 1 = (2::nat)" by simp
  then show ?thesis by (simp add: Let_def del: One_nat_def)
qed

lemma digits_run_required:
  "class_block True digits False ([], []) (siterate (\<lambda>n. n + 3) 0)
     = (Inr (''0123456789'', ''0''), siterate (\<lambda>n. n + 3) 3)"
  by (simp add: class_block_def bind_gen_def return_gen_def choice_def digits_def Let_def)

lemma digits_run_filler:
  "choices ''0123456789'' 7 (siterate (\<lambda>n. n + 3) 3)
     = (Inr ''3692581'', siterate (\<lambda>n. n + 3) 24)"
  by (simp add: bind_gen_def return_gen_def choice_def choices_numeral)

lemma digits_run_shuffle:
  "shuffle_from 7 ''03692581'' (siterate (\<lambda>n. n + 3) 24)
     = (Inr ''36259180'', siterate (\<lambda>n. n + 3) 45)"
  by (simp add: bind_gen_def return_gen_def randbelow_def shuffle_numeral shuffle_one
        del: shuffle_from.simps)

lemma generate_standard_digits_run:
  "generate_standard 8 False False True False False (siterate (\<lambda>n. n + 3) 0)
     = (Inr ''36259180'', siterate (\<lambda>n. n + 3) 45)"
proof -
  have len: "length ''03692581'' - 1 = 7" by simp
  have app: "''0'' @ ''3692581'' = ''03692581''" by simp
  have rem: "nat (max 8 (min 128 8) - int (length ''0'')) = 7" by simp
  have ne: "''0123456789'' \<noteq> []" by simp
  show ?thesis
    unfolding generate_standard_def Let_def
    by (simp only: bind_gen_def class_block_unselected digits_run_required rem
          digits_run_filler len app digits_run_shuffle ne
          prod.case sum.case if_False)
qed

subsection \<open>Composition of a standard password\<close>

text \<open>
  C1. When at least one class is selected, \<open>generate_standard\<close> returns a password, for
  every requested length, every setting of \<open>exclude_ambiguous\<close> and every outcome of the
  random draws. Its length is the requested length clamped into 8..128. It holds a
  character of the subset of every selected class (the class, without the ambiguous
  characters when they are excluded; the symbols are never filtered), no character of a
  class that is not selected, and none of \<open>i l 1 L o 0 O\<close> when they are excluded.
\<close>

theorem generate_standard_composition:
  assumes "uppercase \<or> lowercase \<or> numbers \<or> symbols"
  shows "\<exists>pw g'.
           generate_standard len uppercase lowercase numbers symbols exclude_ambiguous g = (Inr pw, g') \<and>
           int (length pw) = clamp len 8 128 \<and>
           (lowercase \<longrightarrow> (\<exists>c\<in>set pw. c \<in> set (class_subset exclude_ambiguous ascii_lowercase))) \<and>
           (uppercase \<longrightarrow> (\<exists>c\<in>set pw. c \<in> set (class_subset exclude_ambiguous ascii_uppercase))) \<and>
           (numbers \<longrightarrow> (\<exists>c\<in>set pw. c \<in> set (class_subset exclude_ambiguous digits))) \<and>
           (symbols \<longrightarrow> (\<exists>c\<in>set pw. c \<in> set punctuation)) \<and>
           (\<not> lowercase \<longrightarrow> set pw \<inter> set ascii_lowercase = {}) \<and>
           (\<not> uppercase \<longrightarrow> set pw \<inter> set ascii_uppercase = {}) \<and>
           (\<not> numbers \<longrightarrow> set pw \<inter> set digits = {}) \<and>
           (\<not> symbols \<longrightarrow> set pw \<inter> set punctuation = {}) \<and>
           (exclude_ambiguous \<longrightarrow> set pw \<inter> set ''il1Lo0O'' = {})"
proof -
  show ?thesis
  proof (rule generate_standard_run [OF assms, of len exclude_ambiguous g])
  fix pw g' r1 r2 r3 r4 filler
  define L where "L = (if lowercase then class_subset exclude_ambiguous ascii_lowercase else [])"
  define U where "U = (if uppercase then class_subset exclude_ambiguous ascii_uppercase else [])"
  define N where "N = (if numbers then class_subset exclude_ambiguous digits else [])"
  define S where "S = (if symbols then punctuation else [])"
  assume run: "generate_standard len uppercase lowercase numbers symbols exclude_ambiguous g = (Inr pw, g')"
    and len: "int (length pw) = max 8 (min 128 len)"
    and ms: "mset pw = mset (r1 @ r2 @ r3 @ r4 @ filler)"
    and fill0: "set filler \<subseteq> set (if lowercase then class_subset exclude_ambiguous ascii_lowercase else []) \<union>
                  set (if uppercase then class_subset exclude_ambiguous ascii_uppercase else []) \<union>
                  set (if numbers then class_subset exclude_ambiguous digits else []) \<union>
                  set (if symbols then punctuation else [])"
    and r10: "set r1 \<subseteq> set (if lowercase then class_subset exclude_ambiguous ascii_lowercase else [])"
    and r1l: "length r1 = (if lowercase then 1 else 0)"
    and r20: "set r2 \<subseteq> set (if uppercase then class_subset exclude_ambiguous ascii_uppercase else [])"
    and r2l: "length r2 = (if uppercase then 1 else 0)"
    and r30: "set r3 \<subseteq> set (if numbers then class_subset exclude_ambiguous digits else [])"
    and r3l: "length r3 = (if numbers then 1 else 0)"
    and r40: "set r4 \<subseteq> set (if symbols then punctuation else [])"
    and r4l: "length r4 = (if symbols then 1 else 0)"
  note fill = fill0 [folded L_def U_def N_def S_def]
  note r1 = r10 [folded L_def] r1l
  note r2 = r20 [folded U_def] r2l
  note r3 = r30 [folded N_def] r3l
  note r4 = r40 [folded S_def] r4l
  have "set pw = set (r1 @ r2 @ r3 @ r4 @ filler)"
    using ms by (rule mset_eq_setD)
  then have sp: "set pw = set r1 \<union> set r2 \<union> set r3 \<union> set r4 \<union> set filler"
    by auto
  have sub: "set pw \<subseteq> set L \<union> set U \<union> set N \<union> set S"
    unfolding sp using fill r1(1) r2(1) r3(1) r4(1) by auto
  have Ls: "set L \<subseteq> set ascii_lowercase" and Us: "set U \<subseteq> set ascii_uppercase"
    and Ns: "set N \<subseteq> set digits" and Ss: "set S \<subseteq> set punctuation"
    using class_subset_subset by (auto simp: L_def U_def N_def S_def)
  have c1: "int (length pw) = clamp len 8 128"
    using len by (simp add: clamp_def)
  have c2: "lowercase \<longrightarrow> (\<exists>c\<in>set pw. c \<in> set (class_subset exclude_ambiguous ascii_lowercase))"
  proof
    assume a: lowercase
    then obtain c where "r1 = [c]" using r1(2) singleton_list by fastforce
    then show "\<exists>c\<in>set pw. c \<in> set (class_subset exclude_ambiguous ascii_lowercase)"
      using r1(1) a sp by (auto simp: L_def)
  qed
  have c3: "uppercase \<longrightarrow> (\<exists>c\<in>set pw. c \<in> set (class_subset exclude_ambiguous ascii_uppercase))"
  proof
    assume a: uppercase
    then obtain c where "r2 = [c]" using r2(2) singleton_list by fastforce
    then show "\<exists>c\<in>set pw. c \<in> set (class_subset exclude_ambiguous ascii_uppercase)"
      using r2(1) a sp by (auto simp: U_def)
  qed
  have c4: "numbers \<longrightarrow> (\<exists>c\<in>set pw. c \<in> set (class_subset exclude_ambiguous digits))"
  proof
    assume a: numbers
    then obtain c where "r3 = [c]" using r3(2) singleton_list by fastforce
    then show "\<exists>c\<in>set pw. c \<in> set (class_subset exclude_ambiguous digits)"
      using r3(1) a sp by (auto simp: N_def)
  qed
  have c5: "symbols \<longrightarrow> (\<exists>c\<in>set pw. c \<in> set punctuation)"
  proof
    assume a: symbols
    then obtain c where "r4 = [c]" using r4(2) singleton_list by fastforce
    then show "\<exists>c\<in>set pw. c \<in> set punctuation"
      using r4(1) a sp by (auto simp: S_def)
  qed
  have c6: "\<not> lowercase \<longrightarrow> set pw \<inter> set ascii_lowercase = {}"
  proof
    assume "\<not> lowercase"
    then have "set pw \<subseteq> set ascii_uppercase \<union> set digits \<union> set punctuation"
      using sub Us Ns Ss by (auto simp: L_def)
    then show "set pw \<inter> set ascii_lowercase = {}" using classes_disjoint by blast
  qed
  have c7: "\<not> uppercase \<longrightarrow> set pw \<inter> set ascii_uppercase = {}"
  proof
    assume "\<not> uppercase"
    then have "set pw \<subseteq> set ascii_lowercase \<union> set digits \<union> set punctuation"
      using sub Ls Ns Ss by (auto simp: U_def)
    then show "set pw \<inter> set ascii_uppercase = {}" using classes_disjoint by blast
  qed
  have c8: "\<not> numbers \<longrightarrow> set pw \<inter> set digits = {}"
  proof
    assume "\<not> numbers"
    then have "set pw \<subseteq> set ascii_lowercase \<union> set ascii_uppercase \<union> set punctuation"
      using sub Ls Us Ss by (auto simp: N_def)
    then show "set pw \<inter> set digits = {}" using classes_disjoint by blast
  qed
  have c9: "\<not> symbols \<longrightarrow> set pw \<inter> set punctuation = {}"
  proof
    assume "\<not> symbols"
    then have "set pw \<subseteq> set ascii_lowercase \<union> set ascii_uppercase \<union> set digits"
      using sub Ls Us Ns by (auto simp: S_def)
    then show "set pw \<inter> set punctuation = {}" using classes_disjoint by blast
  qed
  have c10: "exclude_ambiguous \<longrightarrow> set pw \<inter> set ''il1Lo0O'' = {}"
  proof
    assume a: exclude_ambiguous
    have "set L \<inter> set ''il1Lo0O'' = {}" "set U \<inter> set ''il1Lo0O'' = {}"
      "set N \<inter> set ''il1Lo0O'' = {}" "set S \<inter> set ''il1Lo0O'' = {}"
      using class_subset_unambiguous punctuation_unambiguous a
      by (simp_all add: L_def U_def N_def S_def)
    then show "set pw \<inter> set ''il1Lo0O'' = {}" using sub by blast
  qed
  from run c1 c2 c3 c4 c5 c6 c7 c8 c9 c10 show ?thesis by blast
  qed
qed

text \<open>
  A request for 3 characters of lower-case letters and digits without ambiguous
  characters yields 8 characters.
\<close>

theorem generate_standard_composition_witness:
  "\<exists>pw g'. generate_standard 3 False True True False True (siterate Suc 0) = (Inr pw, g') \<and>
      length pw = 8 \<and>
      (\<exists>c\<in>set pw. c \<in> set ''abcdefghjkmnpqrstuvwxyz'') \<and>
      (\<exists>c\<in>set pw. c \<in> set ''23456789'') \<and>
      set pw \<inter> set ascii_uppercase = {} \<and>
      set pw \<inter> set punctuation = {} \<and>
      set pw \<inter> set ''il1Lo0O'' = {}"
proof -
  have sel: "False \<or> True \<or> True \<or> False" by simp
  have a: "class_subset True ascii_lowercase = ''abcdefghjkmnpqrstuvwxyz''"
    by (simp add: class_subset_def ascii_lowercase_def)
  have b: "class_subset True digits = ''23456789''"
    by (simp add: class_subset_def digits_def)
  have c: "clamp 3 8 128 = 8" by (simp add: clamp_def)
  show ?thesis
    using generate_standard_composition [OF sel, of 3 True "siterate Suc 0"]
    unfolding a b c by simp
qed

subsection \<open>The validation error\<close>



subsection \<open>The dispatcher\<close>

text \<open>
  C10. When the value under \<open>type\<close> (or its default "standard") is neither "pin" nor
  "passphrase", \<open>generate_password\<close> runs the standard generator on the options, each
  read with its default (length 16, the four classes on, ambiguous characters allowed),
  and the \<open>type\<close> of the result is that value itself, whatever it is: an unknown kind
  is echoed, not replaced by "standard". An exception of the generator passes through,
  as does the \<open>TypeError\<close> of a length that cannot be compared with a number.
\<close>

theorem generate_password_echoes_type:
  assumes "dict_get options ''type'' (PyStr ''standard'') = kind"
    and "kind \<noteq> PyStr ''pin''" and "kind \<noteq> PyStr ''passphrase''"
  shows "generate_password options g =
           (case as_int (case options ''length'' of None \<Rightarrow> PyInt 16 | Some v \<Rightarrow> v) of
              Inl e \<Rightarrow> (Inl e, g)
            | Inr len \<Rightarrow>
                (case generate_standard len
                        (truthy (case options ''uppercase'' of None \<Rightarrow> PyBool True | Some v \<Rightarrow> v))
                        (truthy (case options ''lowercase'' of None \<Rightarrow> PyBool True | Some v \<Rightarrow> v))
                        (truthy (case options ''numbers'' of None \<Rightarrow> PyBool True | Some v \<Rightarrow> v))
                        (truthy (case options ''symbols'' of None \<Rightarrow> PyBool True | Some v \<Rightarrow> v))
                        (truthy (case options ''exclude_ambiguous'' of
                                   None \<Rightarrow> PyBool False | Some v \<Rightarrow> v))
                        g of
                   (Inl e, g') \<Rightarrow> (Inl e, g')
                 | (Inr pw, g') \<Rightarrow> (Inr \<lparr>password_f = pw, type_f = kind\<rparr>, g'))) \<and>
         (\<forall>result g'. generate_password options g = (Inr result, g') \<longrightarrow> type_f result = kind)"
proof -
  have eq: "generate_password options g =
           (case as_int (case options ''length'' of None \<Rightarrow> PyInt 16 | Some v \<Rightarrow> v) of
              Inl e \<Rightarrow> (Inl e, g)
            | Inr len \<Rightarrow>
                (case generate_standard len
                        (truthy (case options ''uppercase'' of None \<Rightarrow> PyBool True | Some v \<Rightarrow> v))
                        (truthy (case options ''lowercase'' of None \<Rightarrow> PyBool True | Some v \<Rightarrow> v))
                        (truthy (case options ''numbers'' of None \<Rightarrow> PyBool True | Some v \<Rightarrow> v))
                        (truthy (case options ''symbols'' of None \<Rightarrow> PyBool True | Some v \<Rightarrow> v))
                        (truthy (case options ''exclude_ambiguous'' of
                                   None \<Rightarrow> PyBool False | Some v \<Rightarrow> v))
                        g of
                   (Inl e, g') \<Rightarrow> (Inl e, g')
                 | (Inr pw, g') \<Rightarrow> (Inr \<lparr>password_f = pw, type_f = kind\<rparr>, g')))"
    unfolding generate_password_def Let_def assms(1)
    using assms(2,3)
    by (simp add: with_int_def bind_gen_def return_gen_def raise_gen_def dict_get_def
          split: prod.splits sum.splits)
  have "type_f result = kind" if "generate_password options g = (Inr result, g')" for result g'
    using that unfolding eq by (auto split: sum.splits prod.splits)
  with eq show ?thesis by blast
qed

text \<open>
  The unknown kind "memorable", with no other option given: a standard password of 16
  characters, returned under the type "memorable".
\<close>

theorem generate_password_echoes_type_witness:
  "\<exists>pw g'. generate_password [''type'' \<mapsto> PyStr ''memorable''] (siterate Suc 0) =
              (Inr \<lparr>password_f = pw, type_f = PyStr ''memorable''\<rparr>, g') \<and>
            length pw = 16"
proof -
  have sel: "True \<or> True \<or> True \<or> True" by simp
  obtain pw g' where run: "generate_standard 16 True True True True False (siterate Suc 0) = (Inr pw, g')"
      "int (length pw) = max 8 (min 128 16)"
    by (rule generate_standard_run [OF sel, of 16 False "siterate Suc 0"])
  have "generate_password [''type'' \<mapsto> PyStr ''memorable''] (siterate Suc 0) =
          (Inr \<lparr>password_f = pw, type_f = PyStr ''memorable''\<rparr>, g')"
    using generate_password_echoes_type
      [of "[''type'' \<mapsto> PyStr ''memorable'']" "PyStr ''memorable''" "siterate Suc 0"]
    by (simp add: dict_get_def run(1))
  with run(2) show ?thesis by simp
qed

section \<open>Properties of the breach check\<close>

subsection \<open>Hashing\<close>

lemma hexdigest_length: "length (hexdigest w) = 40"
  by (simp add: hexdigest_def)

lemma upper_length: "length (upper s) = length s"
  by (simp add: upper_def)

lemma utf8_encode_from_Inr:
  "\<not> list_ex is_surrogate s \<Longrightarrow> \<exists>bs. utf8_encode_from pos s = Inr bs"
proof (induction s arbitrary: pos)
  case Nil
  then show ?case by simp
next
  case (Cons c cs)
  then obtain bs where "utf8_encode_from (pos + 1) cs = Inr bs" by fastforce
  with Cons.prems show ?case by simp
qed

lemma utf8_encode_from_Inl:
  "list_ex is_surrogate s \<Longrightarrow> \<exists>e. utf8_encode_from pos s = Inl e"
proof (induction s arbitrary: pos)
  case Nil
  then show ?case by simp
next
  case (Cons c cs)
  show ?case
  proof (cases "is_surrogate c")
    case True
    then show ?thesis by simp
  next
    case False
    with Cons.prems have "list_ex is_surrogate cs" by simp
    then obtain e where "utf8_encode_from (pos + 1) cs = Inl e" using Cons.IH by blast
    with False show ?thesis by simp
  qed
qed


lemma utf8_of_password:
  "utf8_encode (py_str ''password'') = Inr [0x70, 0x61, 0x73, 0x73, 0x77, 0x6F, 0x72, 0x64]"
  by (simp add: utf8_encode_def py_str_def ord_def is_surrogate_def utf8_char_def)

lemma hash_of_password:
  "sha1_hash known_sha1 (py_str ''password'') = Inr ''5BAA61E4C9B93F3F0682250B6CF8331B7EE68FD8''"
  by (simp add: sha1_hash_def utf8_of_password known_sha1_def hexdigest_def upt_rec
        hex_char_def drop_bit_eq_div upper_def upper_char_def)

lemma range_request_eq:
  "\<lparr>url = HIBP_API_URL @ prefix,
    headers = [(''User-Agent'', ''PasswordGuardian-MiniProject'')],
    timeout = 10\<rparr> = range_request prefix"
  by (simp add: range_request_def HIBP_API_URL_def)

subsection \<open>Decimal digits\<close>







subsection \<open>Stripping, splitting and lines\<close>



lemma split_from_run:
  "sep \<notin> set s \<Longrightarrow> split_from sep cur (s @ rest) = split_from sep (cur @ s) rest"
  by (induction s arbitrary: cur) auto

lemma split_record:
  assumes "sep \<notin> set s" and "sep \<notin> set t"
  shows "split sep (s @ sep # t) = [s, t]"
proof -
  have "split sep (s @ sep # t) = split_from sep s (sep # t)"
    using split_from_run [OF assms(1), of "[]" "sep # t"] by (simp add: split_def)
  also have "\<dots> = s # split_from sep [] (t @ [])" by simp
  also have "split_from sep [] (t @ []) = split_from sep t []"
    using split_from_run [OF assms(2), of "[]" "[]"] by simp
  finally show ?thesis by simp
qed





lemma splitlines_from_CRLF:
  "splitlines_from cur (CHR 0x0D # CHR 0x0A # cs) = cur # splitlines_from [] cs"
  by simp


subsection \<open>Records of the answer\<close>

lemma split_from_count:
  "length (split_from sep cur s) = Suc (length (filter (\<lambda>c. c = sep) s))"
  by (induction s arbitrary: cur) simp_all

lemma split_count: "length (split CHR '':'' l) = Suc (colons l)"
  by (simp add: split_def colons_def split_from_count)

lemma one_colon:
  assumes "colons l = 1"
  shows "l = field_text l @ CHR '':'' # count_text l"
    and "CHR '':'' \<notin> set (field_text l)"
    and "CHR '':'' \<notin> set (count_text l)"
proof -
  let ?P = "\<lambda>c. c \<noteq> CHR '':''"
  have ne: "dropWhile ?P l \<noteq> []"
  proof
    assume "dropWhile ?P l = []"
    then have "\<forall>c\<in>set l. c \<noteq> CHR '':''" by (simp add: dropWhile_eq_Nil_conv)
    then have "filter (\<lambda>c. c = CHR '':'') l = []" by (simp add: filter_empty_conv)
    with assms show False by (simp add: colons_def)
  qed
  then have hd: "hd (dropWhile ?P l) = CHR '':''"
    using hd_dropWhile [of ?P l] by simp
  with ne have d: "dropWhile ?P l = CHR '':'' # count_text l"
    by (cases "dropWhile ?P l") (simp_all add: count_text_def)
  have "l = takeWhile ?P l @ dropWhile ?P l" by simp
  with d show 1: "l = field_text l @ CHR '':'' # count_text l"
    by (simp add: field_text_def)
  show 2: "CHR '':'' \<notin> set (field_text l)"
    unfolding field_text_def using set_takeWhileD by fastforce
  have "colons l = colons (field_text l) + 1 + colons (count_text l)"
    by (subst 1) (simp add: colons_def)
  with assms have "colons (count_text l) = 0" by simp
  then show "CHR '':'' \<notin> set (count_text l)"
    by (auto simp: colons_def filter_empty_conv)
qed

lemma split_line:
  assumes "colons l = 1"
  shows "split CHR '':'' l = [field_text l, count_text l]"
  using split_record [OF one_colon(2) [OF assms] one_colon(3) [OF assms]]
    one_colon(1) [OF assms]
  by simp

subsection \<open>Integers\<close>

lemma py_int_error:
  assumes "py_int s = Inl e"
  shows "(e = IntLiteralError s \<or> (\<exists>k. e = IntTooLongError k)) \<and> is_exception e"
  using assms by (auto simp: py_int_def Let_def split: option.splits if_splits)





subsection \<open>The scan\<close>

lemma scan_lines_find:
  "scan_lines ls suffix =
     (case find (names_suffix suffix) ls of
        None \<Rightarrow> Inr \<lparr>breached = False, count_f = 0, error = None\<rparr>
      | Some l \<Rightarrow>
          (case py_int (strip (count_text l)) of
             Inl e \<Rightarrow> Inl e
           | Inr n \<Rightarrow> Inr \<lparr>breached = True, count_f = n, error = None\<rparr>))"
proof (induction ls)
  case Nil
  then show ?case by simp
next
  case (Cons l ls)
  show ?case
  proof (cases "colons l = 1")
    case True
    then show ?thesis
      using Cons.IH by (simp add: split_line names_suffix_def)
  next
    case False
    then have "length (split CHR '':'' l) \<noteq> 2" by (simp add: split_count)
    with False show ?thesis
      using Cons.IH by (simp add: names_suffix_def)
  qed
qed

lemma scan_lines_error: "scan_lines ls suffix = Inl e \<Longrightarrow> is_exception e"
  unfolding scan_lines_find
  by (auto split: option.splits sum.splits dest: py_int_error)

lemma scan_lines_shape: "scan_lines ls suffix = Inr result \<Longrightarrow> error result = None"
  unfolding scan_lines_find
  by (auto split: option.splits sum.splits)

lemma utf8_encode_error: "utf8_encode_from pos s = Inl e \<Longrightarrow> is_exception e"
  by (induction s arbitrary: pos) (auto split: if_splits sum.splits)

subsection \<open>The outcome of a check\<close>

lemma check_breach_sent:
  "snd (check_breach sha1 http_get exc_str pw) =
     (case sha1_hash sha1 pw of Inl e \<Rightarrow> [] | Inr h \<Rightarrow> [range_request (take 5 h)])"
  by (simp add: check_breach_def check_breach_try_def Let_def range_request_eq
        split: sum.splits prod.splits)

lemma check_breach_try_result:
  "fst (check_breach_try sha1 http_get pw) =
     (case sha1_hash sha1 pw of
        Inl e \<Rightarrow> Inl e
      | Inr h \<Rightarrow>
          (case http_get (range_request (take 5 h)) of
             Inl e \<Rightarrow> Inl e
           | Inr response \<Rightarrow>
               (case raise_for_status response of
                  Inl e \<Rightarrow> Inl e
                | Inr u \<Rightarrow> scan_lines (splitlines (text_f response)) (drop 5 h))))"
  by (simp add: check_breach_try_def Let_def range_request_eq split: sum.splits)

lemma check_breach_result:
  "fst (check_breach sha1 http_get exc_str pw) =
     (case fst (check_breach_try sha1 http_get pw) of
        Inl e \<Rightarrow> handle_exception exc_str e
      | Inr result \<Rightarrow> Inr result)"
  by (simp add: check_breach_def split: prod.splits sum.splits)

lemma handle_exception_caught:
  assumes "is_exception e"
  shows "\<exists>result. handle_exception exc_str e = Inr result \<and> breached result = False \<and>
           count_f result = 0 \<and> error result \<noteq> None"
  using assms by (cases e) (simp_all add: handle_exception_def)

lemma handle_exception_generic:
  assumes "is_exception e" and "e \<noteq> TimeoutException" and "\<forall>code. e \<noteq> HTTPStatusError code"
  shows "handle_exception exc_str e =
           Inr \<lparr>breached = False, count_f = 0, error = Some (''Network error: '' @ exc_str e)\<rparr>"
  using assms by (cases e) (auto simp: handle_exception_def)

lemma handle_exception_uncaught:
  assumes "\<not> is_exception e"
  shows "handle_exception exc_str e = Inl e"
  using assms by (cases e) (simp_all add: handle_exception_def)

text \<open>
  Only the awaited request can raise an exception that does not derive from
  \<open>Exception\<close>: the encoding, the status test and the scan raise \<open>ValueError\<close>s and
  the status error.
\<close>

lemma try_raises:
  assumes "fst (check_breach_try sha1 http_get pw) = Inl e" and "\<not> is_exception e"
  shows "\<exists>h. sha1_hash sha1 pw = Inr h \<and> http_get (range_request (take 5 h)) = Inl e"
proof (cases "sha1_hash sha1 pw")
  case (Inl x)
  then have "e = x" using assms(1) by (simp add: check_breach_try_result)
  moreover have "is_exception x"
    using Inl utf8_encode_error [of 0 pw x]
    by (auto simp: sha1_hash_def utf8_encode_def split: sum.splits)
  ultimately show ?thesis using assms(2) by simp
next
  case (Inr h)
  show ?thesis
  proof (cases "http_get (range_request (take 5 h))")
    case (Inl x)
    then show ?thesis using Inr assms(1) by (simp add: check_breach_try_result)
  next
    case r: (Inr response)
    have "is_exception e"
    proof (cases "raise_for_status response")
      case (Inl x)
      then have "e = x" using Inr r assms(1) by (simp add: check_breach_try_result)
      moreover have "is_exception x"
        using Inl by (auto simp: raise_for_status_def split: if_splits)
      ultimately show ?thesis by simp
    next
      case u: (Inr u)
      then have "scan_lines (splitlines (text_f response)) (drop 5 h) = Inl e"
        using Inr r assms(1) by (simp add: check_breach_try_result)
      then show ?thesis by (rule scan_lines_error)
    qed
    with assms(2) show ?thesis by simp
  qed
qed

lemma check_breach_try_shape:
  assumes "fst (check_breach_try sha1 http_get pw) = Inr result"
  shows "error result = None"
proof (cases "sha1_hash sha1 pw")
  case (Inl e)
  then show ?thesis using assms by (simp add: check_breach_try_result)
next
  case (Inr h)
  show ?thesis
  proof (cases "http_get (range_request (take 5 h))")
    case (Inl e)
    then show ?thesis using Inr assms by (simp add: check_breach_try_result)
  next
    case r: (Inr response)
    show ?thesis
    proof (cases "raise_for_status response")
      case (Inl e)
      then show ?thesis using Inr r assms by (simp add: check_breach_try_result)
    next
      case u: (Inr u)
      then have "scan_lines (splitlines (text_f response)) (drop 5 h) = Inr result"
        using Inr r assms by (simp add: check_breach_try_result)
      then show ?thesis by (rule scan_lines_shape)
    qed
  qed
qed


subsection \<open>Lines that are records\<close>







subsection \<open>Exceptions\<close>

text \<open>
  C3, as the specification states it, fails: \<open>except Exception\<close> does not catch an
  exception that derives from \<open>BaseException\<close> only. When the request for the password
  "password" is cancelled while it is awaited, \<open>check_breach\<close> returns nothing and the
  cancellation reaches its caller.
\<close>

theorem cancellation_propagates:
  "fst (check_breach known_sha1 cancelling exc_name (py_str ''password'')) = Inl CancelledError"
  by (simp add: check_breach_result check_breach_try_result hash_of_password cancelling_def
        handle_exception_def)

text \<open>
  C3, amended. \<open>check_breach\<close> lets no exception through that derives from
  \<open>Exception\<close>: a timeout of the request gives the fixed timeout message; a status
  outside 200..299 gives "API error: " followed by the status code; every other exception
  of the \<open>try\<close> block that derives from \<open>Exception\<close> gives "Network error: " followed by
  its text; in all three the result is not breached and counts 0. An exception leaves
  \<open>check_breach\<close> exactly when it does not derive from \<open>Exception\<close> and the awaited
  request raised it. A result that is returned with an error is never breached and
  counts 0.
\<close>

theorem check_breach_catches_exceptions:
  "(\<forall>h. sha1_hash sha1 pw = Inr h \<and> http_get (range_request (take 5 h)) = Inl TimeoutException \<longrightarrow>
      fst (check_breach sha1 http_get exc_str pw) =
        Inr \<lparr>breached = False, count_f = 0,
             error = Some ''Request timed out. Please try again.''\<rparr>) \<and>
   (\<forall>h response. sha1_hash sha1 pw = Inr h \<and> http_get (range_request (take 5 h)) = Inr response \<and>
        \<not> (200 \<le> status_code response \<and> status_code response \<le> 299) \<longrightarrow>
      fst (check_breach sha1 http_get exc_str pw) =
        Inr \<lparr>breached = False, count_f = 0,
             error = Some (''API error: '' @ str_int (status_code response))\<rparr>) \<and>
   (\<forall>e. fst (check_breach_try sha1 http_get pw) = Inl e \<and> is_exception e \<and>
        e \<noteq> TimeoutException \<and> (\<forall>code. e \<noteq> HTTPStatusError code) \<longrightarrow>
      fst (check_breach sha1 http_get exc_str pw) =
        Inr \<lparr>breached = False, count_f = 0, error = Some (''Network error: '' @ exc_str e)\<rparr>) \<and>
   (\<forall>e. fst (check_breach sha1 http_get exc_str pw) = Inl e \<longleftrightarrow>
        \<not> is_exception e \<and>
        (\<exists>h. sha1_hash sha1 pw = Inr h \<and> http_get (range_request (take 5 h)) = Inl e)) \<and>
   (\<forall>result. fst (check_breach sha1 http_get exc_str pw) = Inr result \<and> error result \<noteq> None \<longrightarrow>
      breached result = False \<and> count_f result = 0)"
proof -
  let ?out = "fst (check_breach sha1 http_get exc_str pw)"
  have a: "?out = Inr \<lparr>breached = False, count_f = 0,
                       error = Some ''Request timed out. Please try again.''\<rparr>"
    if "sha1_hash sha1 pw = Inr h" "http_get (range_request (take 5 h)) = Inl TimeoutException"
    for h
    using that by (simp add: check_breach_result check_breach_try_result handle_exception_def)
  have b: "?out = Inr \<lparr>breached = False, count_f = 0,
                       error = Some (''API error: '' @ str_int (status_code response))\<rparr>"
    if "sha1_hash sha1 pw = Inr h" "http_get (range_request (take 5 h)) = Inr response"
      "\<not> (200 \<le> status_code response \<and> status_code response \<le> 299)" for h response
    using that
    by (auto simp: check_breach_result check_breach_try_result raise_for_status_def
          handle_exception_def)
  have c: "?out = Inr \<lparr>breached = False, count_f = 0,
                       error = Some (''Network error: '' @ exc_str e)\<rparr>"
    if "fst (check_breach_try sha1 http_get pw) = Inl e" "is_exception e"
      "e \<noteq> TimeoutException" "\<forall>code. e \<noteq> HTTPStatusError code" for e
    using that(1) handle_exception_generic [OF that(2,3,4)] by (simp add: check_breach_result)
  have d: "?out = Inl e \<longleftrightarrow>
        \<not> is_exception e \<and>
        (\<exists>h. sha1_hash sha1 pw = Inr h \<and> http_get (range_request (take 5 h)) = Inl e)" for e
  proof
    assume out: "?out = Inl e"
    show "\<not> is_exception e \<and>
        (\<exists>h. sha1_hash sha1 pw = Inr h \<and> http_get (range_request (take 5 h)) = Inl e)"
    proof (cases "fst (check_breach_try sha1 http_get pw)")
      case (Inl x)
      with out have h: "handle_exception exc_str x = Inl e" by (simp add: check_breach_result)
      have n: "\<not> is_exception x"
      proof
        assume "is_exception x"
        from handle_exception_caught [OF this, of exc_str] h show False by auto
      qed
      from handle_exception_uncaught [OF n, of exc_str] h have "e = x" by simp
      with n try_raises [OF Inl n] show ?thesis by simp
    next
      case (Inr result)
      with out show ?thesis by (simp add: check_breach_result)
    qed
  next
    assume r: "\<not> is_exception e \<and>
        (\<exists>h. sha1_hash sha1 pw = Inr h \<and> http_get (range_request (take 5 h)) = Inl e)"
    then obtain h where "sha1_hash sha1 pw = Inr h" "http_get (range_request (take 5 h)) = Inl e"
      by blast
    then have "fst (check_breach_try sha1 http_get pw) = Inl e"
      by (simp add: check_breach_try_result)
    with r handle_exception_uncaught [of e exc_str] show "?out = Inl e"
      by (simp add: check_breach_result)
  qed
  have e: "breached result = False \<and> count_f result = 0"
    if out: "?out = Inr result" and err: "error result \<noteq> None" for result
  proof (cases "fst (check_breach_try sha1 http_get pw)")
    case (Inl x)
    with out have h: "handle_exception exc_str x = Inr result" by (simp add: check_breach_result)
    have "is_exception x"
    proof (rule ccontr)
      assume "\<not> is_exception x"
      from handle_exception_uncaught [OF this, of exc_str] h show False by simp
    qed
    from handle_exception_caught [OF this, of exc_str] h show ?thesis by auto
  next
    case (Inr r)
    with out have "result = r" by (simp add: check_breach_result)
    with check_breach_try_shape [OF Inr] err show ?thesis by simp
  qed
  from a b c d e show ?thesis by blast
qed

text \<open>
  A timeout, a status 503, a password that cannot be encoded, and a cancelled request,
  on the stand-ins.
\<close>

theorem check_breach_catches_exceptions_witness:
  "fst (check_breach known_sha1 timing_out exc_name (py_str ''password'')) =
     Inr \<lparr>breached = False, count_f = 0,
          error = Some ''Request timed out. Please try again.''\<rparr> \<and>
   fst (check_breach known_sha1 (answering 503 '''') exc_name (py_str ''password'')) =
     Inr \<lparr>breached = False, count_f = 0, error = Some ''API error: 503''\<rparr> \<and>
   fst (check_breach known_sha1 (answering 200 '''') exc_name [0xD800]) =
     Inr \<lparr>breached = False, count_f = 0,
          error = Some ''Network error: surrogates not allowed''\<rparr> \<and>
   fst (check_breach known_sha1 cancelling exc_name (py_str ''password'')) = Inl CancelledError"
proof -
  note h = hash_of_password
  have t: "timing_out (range_request (take 5 ''5BAA61E4C9B93F3F0682250B6CF8331B7EE68FD8''))
             = Inl TimeoutException"
    by (simp add: timing_out_def)
  have s: "answering 503 '''' (range_request (take 5 ''5BAA61E4C9B93F3F0682250B6CF8331B7EE68FD8''))
             = Inr \<lparr>status_code = 503, text_f = ''''\<rparr>"
    by (simp add: answering_def)
  have k: "cancelling (range_request (take 5 ''5BAA61E4C9B93F3F0682250B6CF8331B7EE68FD8''))
             = Inl CancelledError"
    by (simp add: cancelling_def)
  have n: "str_int 503 = ''503''"
    by (simp add: str_int_def str_nat.simps digit_char_def)
  have u: "fst (check_breach_try known_sha1 (answering 200 '''') [0xD800]) =
             Inl (UnicodeEncodeError 0 1)"
    by (simp add: check_breach_try_def sha1_hash_def utf8_encode_def is_surrogate_def)
  have 1: "fst (check_breach known_sha1 timing_out exc_name (py_str ''password'')) =
     Inr \<lparr>breached = False, count_f = 0,
          error = Some ''Request timed out. Please try again.''\<rparr>"
    using check_breach_catches_exceptions
      [of known_sha1 "py_str ''password''" timing_out exc_name] h t
    by blast
  have "fst (check_breach known_sha1 (answering 503 '''') exc_name (py_str ''password'')) =
     Inr \<lparr>breached = False, count_f = 0,
          error = Some (''API error: '' @
            str_int (status_code \<lparr>status_code = 503, text_f = ''''\<rparr>))\<rparr>"
    using check_breach_catches_exceptions
      [of known_sha1 "py_str ''password''" "answering 503 ''''" exc_name] h s
    by (elim conjE allE [where x = "''5BAA61E4C9B93F3F0682250B6CF8331B7EE68FD8''"]
          allE [where x = "\<lparr>status_code = 503, text_f = ''''\<rparr>"]) simp
  then have 2: "fst (check_breach known_sha1 (answering 503 '''') exc_name (py_str ''password'')) =
     Inr \<lparr>breached = False, count_f = 0, error = Some ''API error: 503''\<rparr>"
    by (simp add: n)
  have "fst (check_breach known_sha1 (answering 200 '''') exc_name [0xD800]) =
     Inr \<lparr>breached = False, count_f = 0,
          error = Some (''Network error: '' @ exc_name (UnicodeEncodeError 0 1))\<rparr>"
    using check_breach_catches_exceptions
      [of known_sha1 "[0xD800]" "answering 200 ''''" exc_name] u
    by (elim conjE allE [where x = "UnicodeEncodeError 0 1"]) simp
  then have 3: "fst (check_breach known_sha1 (answering 200 '''') exc_name [0xD800]) =
     Inr \<lparr>breached = False, count_f = 0,
          error = Some ''Network error: surrogates not allowed''\<rparr>"
    by (simp add: exc_name_def)
  have 4: "fst (check_breach known_sha1 cancelling exc_name (py_str ''password'')) =
             Inl CancelledError"
    using check_breach_catches_exceptions
      [of known_sha1 "py_str ''password''" cancelling exc_name] h k
    by (elim conjE allE [where x = CancelledError]) auto
  from 1 2 3 4 show ?thesis by blast
qed

subsection \<open>What crosses the trust boundary\<close>

text \<open>
  C2, as the specification states it, fails for a password that cannot be encoded as
  UTF-8: the string of the single surrogate code point U+D800 makes \<open>encode\<close> raise
  inside the \<open>try\<close> block, and no request is sent at all.
\<close>

theorem no_request_for_surrogate:
  "snd (check_breach known_sha1 (answering 200 '''') exc_name [0xD800]) = []"
  by (simp add: check_breach_sent sha1_hash_def utf8_encode_def is_surrogate_def)

text \<open>
  C2, amended. For every password that can be encoded as UTF-8, which is every password
  without a surrogate code point, \<open>check_breach\<close> sends exactly one request: the range
  query for the first 5 characters of the upper-cased hex digest of the encoded password.
  The digest has 40 characters, so the full hash is not sent, and the request is a
  function of the 5-character prefix alone, so it carries nothing else of the password.
  For a password that cannot be encoded, no request is sent.
\<close>

theorem check_breach_sends_prefix_only:
  "(\<forall>bytes. utf8_encode pw = Inr bytes \<longrightarrow>
      snd (check_breach sha1 http_get exc_str pw) =
        [range_request (take 5 (upper (hexdigest (sha1 bytes))))] \<and>
      length (take 5 (upper (hexdigest (sha1 bytes)))) = 5 \<and>
      length (upper (hexdigest (sha1 bytes))) = 40) \<and>
   ((\<exists>bytes. utf8_encode pw = Inr bytes) \<longleftrightarrow> \<not> list_ex is_surrogate pw) \<and>
   (list_ex is_surrogate pw \<longrightarrow> snd (check_breach sha1 http_get exc_str pw) = [])"
proof -
  have a: "snd (check_breach sha1 http_get exc_str pw) =
        [range_request (take 5 (upper (hexdigest (sha1 bytes))))] \<and>
      length (take 5 (upper (hexdigest (sha1 bytes)))) = 5 \<and>
      length (upper (hexdigest (sha1 bytes))) = 40"
    if "utf8_encode pw = Inr bytes" for bytes
    using that by (simp add: check_breach_sent sha1_hash_def upper_length hexdigest_length)
  have b: "(\<exists>bytes. utf8_encode pw = Inr bytes) \<longleftrightarrow> \<not> list_ex is_surrogate pw"
  proof
    assume "\<exists>bytes. utf8_encode pw = Inr bytes"
    then show "\<not> list_ex is_surrogate pw"
      using utf8_encode_from_Inl [of pw 0] by (auto simp: utf8_encode_def)
  next
    assume "\<not> list_ex is_surrogate pw"
    then show "\<exists>bytes. utf8_encode pw = Inr bytes"
      using utf8_encode_from_Inr [of pw 0] by (simp add: utf8_encode_def)
  qed
  have c: "snd (check_breach sha1 http_get exc_str pw) = []" if s: "list_ex is_surrogate pw"
  proof -
    obtain e where "utf8_encode pw = Inl e"
      using utf8_encode_from_Inl [OF s, of 0] by (auto simp: utf8_encode_def)
    then show ?thesis by (simp add: check_breach_sent sha1_hash_def)
  qed
  from a b c show ?thesis by blast
qed

text \<open>
  The password "password", whose digest starts with 5BAA6, and the surrogate again.
\<close>

theorem check_breach_sends_prefix_only_witness:
  "snd (check_breach known_sha1 (answering 200 '''') exc_name (py_str ''password'')) =
     [\<lparr>url = ''https://api.pwnedpasswords.com/range/5BAA6'',
       headers = [(''User-Agent'', ''PasswordGuardian-MiniProject'')],
       timeout = 10\<rparr>] \<and>
   snd (check_breach known_sha1 timing_out exc_name [0x61, 0xDC00, 0xDFFF]) = []"
proof -
  have d: "upper (hexdigest (known_sha1 [0x70, 0x61, 0x73, 0x73, 0x77, 0x6F, 0x72, 0x64]))
             = ''5BAA61E4C9B93F3F0682250B6CF8331B7EE68FD8''"
    using hash_of_password by (simp add: sha1_hash_def utf8_of_password)
  have "snd (check_breach known_sha1 (answering 200 '''') exc_name (py_str ''password'')) =
          [range_request (take 5 (upper (hexdigest
             (known_sha1 [0x70, 0x61, 0x73, 0x73, 0x77, 0x6F, 0x72, 0x64]))))]"
    using check_breach_sends_prefix_only
      [of "py_str ''password''" known_sha1 "answering 200 ''''" exc_name] utf8_of_password
    by blast
  then have 1: "snd (check_breach known_sha1 (answering 200 '''') exc_name (py_str ''password'')) =
     [\<lparr>url = ''https://api.pwnedpasswords.com/range/5BAA6'',
       headers = [(''User-Agent'', ''PasswordGuardian-MiniProject'')],
       timeout = 10\<rparr>]"
    unfolding d by (simp add: range_request_def)
  have s: "list_ex is_surrogate [0x61, 0xDC00, 0xDFFF]" by (simp add: is_surrogate_def)
  have 2: "snd (check_breach known_sha1 timing_out exc_name [0x61, 0xDC00, 0xDFFF]) = []"
    using check_breach_sends_prefix_only [of "[0x61, 0xDC00, 0xDFFF]" known_sha1 timing_out exc_name] s
    by blast
  from 1 2 show ?thesis by blast
qed

subsection \<open>Matching the suffix\<close>




end
